theory Spec2Isabelle
  imports Main "HOL-Library.Word"
begin

section \<open>Machine integers and C strings\<close>

text \<open>
  The bridge is built for amd64 (the cgo flags name \<^verbatim>\<open>linux-x86_64\<close> and
  \<^verbatim>\<open>darwin-x86_64\<close>): a C \<^verbatim>\<open>int\<close> is 32 bits, a Go \<^verbatim>\<open>int\<close> and a
  \<^verbatim>\<open>size_t\<close> are 64 bits. Signed values are read with \<open>sint\<close>.
\<close>

type_synonym c_int = "32 word"
type_synonym go_int = "64 word"
type_synonym size_t = "64 word"
type_synonym byte = "8 word"

text \<open>
  A \<^verbatim>\<open>char*\<close> is a \<open>string option\<close>: \<open>None\<close> is the null pointer. Whoever reads
  a buffer through a \<^verbatim>\<open>char*\<close> sees it up to the first NUL byte.
\<close>

definition c_str :: "string \<Rightarrow> string" where
  "c_str s = takeWhile (\<lambda>c. c \<noteq> CHR 0x00) s"

text \<open>
  \<^verbatim>\<open>CopyString(std::string)\<close>: \<^verbatim>\<open>malloc(len + 1)\<close>, \<^verbatim>\<open>memcpy\<close> of \<open>len\<close> bytes, a
  terminating NUL; the result is the C string that starts at \<open>mem\<close>.
\<close>

definition CopyString :: "string \<Rightarrow> string" where
  "CopyString s = (let mem = s @ [CHR 0x00] in c_str mem)"

text \<open>
  A \<^verbatim>\<open>String::Utf8Value\<close>: \<open>None\<close> when the conversion to a string failed (\<^verbatim>\<open>*value\<close>
  is null and \<^verbatim>\<open>length()\<close> is 0), otherwise the UTF-8 bytes.
\<close>

type_synonym Utf8Value = "string option"

definition Utf8Value_length :: "Utf8Value \<Rightarrow> nat" where
  "Utf8Value_length v = (case v of None \<Rightarrow> 0 | Some s \<Rightarrow> length s)"

text \<open>
  \<^verbatim>\<open>CopyString(String::Utf8Value&)\<close>: null for a value of length 0, otherwise the copy
  of \<^verbatim>\<open>*value\<close>, which converts to \<^verbatim>\<open>std::string\<close> as a C string.
\<close>

definition CopyString_Utf8Value :: "Utf8Value \<Rightarrow> string option" where
  "CopyString_Utf8Value v =
     (if Utf8Value_length v = 0 then None
      else case v of None \<Rightarrow> None | Some s \<Rightarrow> Some (CopyString (c_str s)))"

subsection \<open>Decimal output of \<^verbatim>\<open>std::ostringstream\<close>\<close>

fun dec_nat :: "nat \<Rightarrow> string" where
  "dec_nat n =
     (if n < 10 then [''0123456789'' ! n]
      else dec_nat (n div 10) @ [''0123456789'' ! (n mod 10)])"

declare dec_nat.simps [simp del]

definition dec_int :: "int \<Rightarrow> string" where
  "dec_int i = (if i < 0 then CHR ''-'' # dec_nat (nat (- i)) else dec_nat (nat i))"

text \<open>
  The stream is its buffer and its \<^verbatim>\<open>badbit\<close>. Inserting a null \<^verbatim>\<open>char*\<close> sets the
  \<^verbatim>\<open>badbit\<close>, and a stream that is not good ignores every later insertion.
\<close>

record ostringstream =
  buf :: string
  badbit :: bool

definition new_ostringstream :: ostringstream where
  "new_ostringstream = \<lparr>buf = [], badbit = False\<rparr>"

definition put_cstr :: "string option \<Rightarrow> ostringstream \<Rightarrow> ostringstream" where
  "put_cstr p sb =
     (if badbit sb then sb
      else case p of None \<Rightarrow> sb\<lparr>badbit := True\<rparr>
                   | Some s \<Rightarrow> sb\<lparr>buf := buf sb @ c_str s\<rparr>)"

definition put_int :: "c_int \<Rightarrow> ostringstream \<Rightarrow> ostringstream" where
  "put_int i sb = (if badbit sb then sb else sb\<lparr>buf := buf sb @ dec_int (sint i)\<rparr>)"

section \<open>Exceptions of the engine and their marshalling\<close>

text \<open>
  What the bridge reads from a \<^verbatim>\<open>v8::Message\<close>: the resource name of the script origin
  as a \<^verbatim>\<open>Utf8Value\<close>, and the two \<^verbatim>\<open>Maybe<int>\<close> positions.
\<close>

record v8_Message =
  ResourceName :: Utf8Value
  LineNumber :: "c_int option"
  StartColumn :: "c_int option"

text \<open>
  What the bridge reads from a \<^verbatim>\<open>v8::TryCatch\<close>. \<open>Exception_tc\<close> is the
  \<^verbatim>\<open>Utf8Value\<close> of the exception object, \<open>Message_tc\<close> is \<open>None\<close> for an empty
  message handle, \<open>StackTrace_tc\<close> is \<open>None\<close> for an empty \<^verbatim>\<open>MaybeLocal\<close> and
  otherwise the \<^verbatim>\<open>Utf8Value\<close> of the trace.
\<close>

record TryCatch =
  HasCaught :: bool
  HasTerminated :: bool
  Exception_tc :: Utf8Value
  Message_tc :: "v8_Message option"
  StackTrace_tc :: "Utf8Value option"

record RtnError =
  msg :: "string option"
  location :: "string option"
  stack :: "string option"

definition ExceptionError :: "TryCatch \<Rightarrow> RtnError" where
  "ExceptionError try_catch =
     (let rtn = \<lparr>msg = None, location = None, stack = None\<rparr> in
      if HasTerminated try_catch then
        rtn\<lparr>msg := Some (CopyString
               ''ExecutionTerminated: script execution has been terminated'')\<rparr>
      else
        let rtn = rtn\<lparr>msg := CopyString_Utf8Value (Exception_tc try_catch)\<rparr>;
            rtn = (case Message_tc try_catch of
                     None \<Rightarrow> rtn
                   | Some m \<Rightarrow>
                       let sb = put_cstr (ResourceName m) new_ostringstream;
                           sb = (case LineNumber m of
                                   None \<Rightarrow> sb
                                 | Some line \<Rightarrow> put_int line (put_cstr (Some '':'') sb));
                           sb = (case StartColumn m of
                                   None \<Rightarrow> sb
                                 | Some start \<Rightarrow>
                                     put_int (start + 1) (put_cstr (Some '':'') sb))
                       in rtn\<lparr>location := Some (CopyString (buf sb))\<rparr>);
            rtn = (case StackTrace_tc try_catch of
                     None \<Rightarrow> rtn
                   | Some st \<Rightarrow> rtn\<lparr>stack := CopyString_Utf8Value st\<rparr>)
        in rtn)"

section \<open>The engine as the bridge sees it\<close>

text \<open>
  The parser, compiler and virtual machine are not part of the bridge. Each operation
  below takes the engine as a parameter: a record of the outcomes of the calls the bridge
  makes into it. A call that fails hands back the state of the \<^verbatim>\<open>TryCatch\<close> in scope.
  \<open>Script_Compile\<close> and \<open>CompileModule\<close> take the source text and the resource name of
  the \<^verbatim>\<open>ScriptOrigin\<close>; \<open>InstantiateModule\<close> takes the resolve callback;
  \<open>Function_Call\<close> gives the state of the \<^verbatim>\<open>TryCatch\<close> after the call. What script
  code does to the context while the engine runs it, by calling the function installed as
  \<^verbatim>\<open>V8Engine.cb\<close>, is the effect of \<open>cb\<close> below and not repeated in each operation.
\<close>

type_synonym js_function = nat

datatype js_value =
  JSUndefined
  | JSFunction js_function
  | JSArrayBuffer "byte list"
  | JSOther nat

text \<open>
  A compiled module: the identity of the engine object, its identity hash and the
  specifiers it requests, in the order of \<^verbatim>\<open>GetModuleRequest(i)\<close>.
\<close>

record Module =
  module_id :: nat
  IdentityHash :: c_int
  ModuleRequests :: "string list"

record 's engine =
  Script_Compile :: "string \<Rightarrow> string \<Rightarrow> TryCatch + 's"
  Script_Run :: "'s \<Rightarrow> TryCatch + js_value"
  CompileModule :: "string \<Rightarrow> string \<Rightarrow> TryCatch + Module"
  InstantiateModule :: "Module \<Rightarrow> (string \<Rightarrow> Module \<Rightarrow> Module option) \<Rightarrow> bool option"
  Module_Evaluate :: "Module \<Rightarrow> TryCatch + js_value"
  Function_Call :: "js_function \<Rightarrow> js_value list \<Rightarrow> TryCatch"

definition FromMaybe :: "'a option \<Rightarrow> 'a \<Rightarrow> 'a" where
  "FromMaybe m default_value = (case m of None \<Rightarrow> default_value | Some v \<Rightarrow> v)"

text \<open>
  Three ways the process stops instead of returning: an \<^verbatim>\<open>assert\<close> that fails, a read
  through a null pointer (the construction of a \<^verbatim>\<open>std::string\<close> from one, or
  \<^verbatim>\<open>printf("%s\n", p)\<close> with a null \<open>p\<close>, which reads the string it is to print), and
  the read of an object that has been deleted.
\<close>

datatype crash = AssertionFailed | NullPointer | UseAfterFree

section \<open>Contexts and values\<close>

text \<open>
  \<^verbatim>\<open>m_ctx\<close>: the callback slot (\<open>None\<close> is the empty persistent handle), the registry
  from module name to module and the table from a referrer's identity hash to its
  resolved specifiers. The isolate and the context handle belong to the engine.
\<close>

record m_ctx =
  cb_field :: "js_function option"
  modules :: "string \<rightharpoonup> Module"
  resolved :: "c_int \<rightharpoonup> (string \<rightharpoonup> Module)"

definition NewContext :: m_ctx where
  "NewContext = \<lparr>cb_field = None, modules = Map.empty, resolved = Map.empty\<rparr>"

text \<open>
  The function installed as \<^verbatim>\<open>V8Engine.cb\<close>. \<^verbatim>\<open>args[0]\<close> of an empty argument list is
  \<^verbatim>\<open>undefined\<close>.
\<close>

definition cb :: "js_value list \<Rightarrow> m_ctx \<Rightarrow> crash + m_ctx" where
  "cb args ctx =
     (let v = (case args of [] \<Rightarrow> JSUndefined | a # _ \<Rightarrow> a) in
      case v of
        JSFunction func \<Rightarrow> Inr (ctx\<lparr>cb_field := Some func\<rparr>)
      | _ \<Rightarrow> Inl AssertionFailed)"

type_synonym ContextPtr = "nat option"
type_synonym ValuePtr = "nat option"

record m_value =
  m_value_ptr :: "js_value option"
  m_value_context :: ContextPtr

text \<open>
  The \<^verbatim>\<open>m_value\<close> objects on the C++ heap. \<^verbatim>\<open>new\<close> hands out the next address;
  \<^verbatim>\<open>delete\<close> removes the cell.
\<close>

record value_heap =
  cells :: "nat \<rightharpoonup> m_value"
  next_free :: nat

definition new_m_value :: "m_value \<Rightarrow> value_heap \<Rightarrow> nat \<times> value_heap" where
  "new_m_value val h =
     (next_free h, h\<lparr>cells := (cells h)(next_free h \<mapsto> val), next_free := Suc (next_free h)\<rparr>)"

record RtnValue =
  RtnValue_value :: ValuePtr
  RtnValue_error :: RtnError

definition Run :: "'s engine \<Rightarrow> value_heap \<Rightarrow> ContextPtr \<Rightarrow> string \<Rightarrow> string \<Rightarrow> RtnValue \<times> value_heap" where
  "Run eng h ptr source origin =
     (let lSource = source;
          lOrigin = source;
          rtn = \<lparr>RtnValue_value = None,
                 RtnValue_error = \<lparr>msg = None, location = None, stack = None\<rparr>\<rparr>
      in case Script_Compile eng lSource lOrigin of
           Inl try_catch \<Rightarrow> (rtn\<lparr>RtnValue_error := ExceptionError try_catch\<rparr>, h)
         | Inr script \<Rightarrow>
             (case Script_Run eng script of
                Inl try_catch \<Rightarrow> (rtn\<lparr>RtnValue_error := ExceptionError try_catch\<rparr>, h)
              | Inr result \<Rightarrow>
                  let (val, h') = new_m_value \<lparr>m_value_ptr = Some result, m_value_context = ptr\<rparr> h
                  in (rtn\<lparr>RtnValue_value := Some val\<rparr>, h')))"

definition DisposeValue :: "ValuePtr \<Rightarrow> value_heap \<Rightarrow> crash + value_heap" where
  "DisposeValue ptr h =
     (case ptr of
        None \<Rightarrow> Inr h
      | Some a \<Rightarrow>
          (case cells h a of
             None \<Rightarrow> Inl UseAfterFree
           | Some val \<Rightarrow>
               (case m_value_context val of
                  None \<Rightarrow> Inr h
                | Some ctx \<Rightarrow> Inr (h\<lparr>cells := (cells h)(a := None)\<rparr>))))"

section \<open>The package state of the Go side and the functions of the host\<close>

text \<open>
  The world a load runs in: the context of the engine in use, the three package variables
  of the Go side (the mutex is seen through the trace), the trace of the operations on
  the mutex and on the table in the order they were made, and the lines written to the
  standard output.

  A \<^verbatim>\<open>ModuleResolverCallback\<close> is a Go function value: \<open>None\<close> for \<^verbatim>\<open>nil\<close>, otherwise the
  identity of the function. What the functions of the host do is a parameter, as the
  engine is: \<open>host f\<close> is the behaviour of the function \<open>f\<close>. A resolver gets the module
  name and the referrer name and runs in the world as it is when it is called; it may call
  back into the bridge, load modules and so change the context, the counter and the table
  before it returns the canonical name and its status; it may also end the process.
\<close>

type_synonym ModuleResolverCallback = "nat option"

datatype event =
  Lock
  | Unlock
  | Store go_int
  | Load go_int
  | Delete go_int
  | Invoke go_int string string

record world =
  w_ctx :: m_ctx
  nextResolverToken :: go_int
  resolverFuncs :: "go_int \<rightharpoonup> ModuleResolverCallback"
  trace :: "event list"
  stdout :: "string list"

type_synonym host = "nat \<Rightarrow> string \<Rightarrow> string \<Rightarrow> world \<Rightarrow> crash + ((string \<times> go_int) \<times> world)"

definition go_init :: "m_ctx \<Rightarrow> world" where
  "go_init ctx =
     \<lparr>w_ctx = ctx, nextResolverToken = 0, resolverFuncs = Map.empty, trace = [], stdout = []\<rparr>"

definition emit :: "event \<Rightarrow> world \<Rightarrow> world" where
  "emit e w = w\<lparr>trace := trace w @ [e]\<rparr>"

text \<open>
  The operations on the mutex and on the table. Each leaves its mark in the trace when,
  and only when, it is made. Reading a Go map at a missing key gives the zero value,
  here \<^verbatim>\<open>nil\<close>.
\<close>

definition mutex_Lock :: "world \<Rightarrow> world" where
  "mutex_Lock w = emit Lock w"

definition mutex_Unlock :: "world \<Rightarrow> world" where
  "mutex_Unlock w = emit Unlock w"

definition map_index :: "(go_int \<rightharpoonup> ModuleResolverCallback) \<Rightarrow> go_int \<Rightarrow> ModuleResolverCallback" where
  "map_index m k = (case m k of None \<Rightarrow> None | Some f \<Rightarrow> f)"

definition map_load :: "go_int \<Rightarrow> world \<Rightarrow> ModuleResolverCallback \<times> world" where
  "map_load k w = (map_index (resolverFuncs w) k, emit (Load k) w)"

definition map_store :: "go_int \<Rightarrow> ModuleResolverCallback \<Rightarrow> world \<Rightarrow> world" where
  "map_store k f w = emit (Store k) (w\<lparr>resolverFuncs := (resolverFuncs w)(k \<mapsto> f)\<rparr>)"

definition map_delete :: "go_int \<Rightarrow> world \<Rightarrow> world" where
  "map_delete k w = emit (Delete k) (w\<lparr>resolverFuncs := (resolverFuncs w)(k := None)\<rparr>)"

definition GoString :: "string option \<Rightarrow> string" where
  "GoString p = (case p of None \<Rightarrow> [] | Some s \<Rightarrow> c_str s)"

definition CString :: "string \<Rightarrow> string" where
  "CString s = (let mem = s @ [CHR 0x00] in c_str mem)"

text \<open>\<^verbatim>\<open>printf("%s\n", p)\<close>: a line on the standard output, or the read through a null \<open>p\<close>.\<close>

definition printf_s :: "string option \<Rightarrow> world \<Rightarrow> crash + world" where
  "printf_s p w =
     (case p of
        None \<Rightarrow> Inl NullPointer
      | Some s \<Rightarrow> Inr (w\<lparr>stdout := stdout w @ [s]\<rparr>))"

record ResolveModule_return =
  r0 :: "string option"
  r1 :: c_int

text \<open>
  The exported \<^verbatim>\<open>ResolveModule\<close>. The resolver is called after the mutex has been
  released, once, and what it leaves is the world the caller goes on in. The status
  narrows from a Go \<^verbatim>\<open>int\<close> to a C \<^verbatim>\<open>int\<close>.
\<close>

definition ResolveModule ::
  "host \<Rightarrow> string \<Rightarrow> string \<Rightarrow> go_int \<Rightarrow> world \<Rightarrow> crash + (ResolveModule_return \<times> world)" where
  "ResolveModule host moduleSpecifier referrerSpecifier resolverToken w =
     (let moduleName = GoString (Some moduleSpecifier);
          referrerName = GoString (Some referrerSpecifier);
          w = mutex_Lock w;
          (resolve, w) = map_load resolverToken w;
          w = mutex_Unlock w
      in case resolve of
           None \<Rightarrow> Inr (\<lparr>r0 = None, r1 = 1\<rparr>, w)
         | Some f \<Rightarrow>
             (case host f moduleName referrerName (emit (Invoke resolverToken moduleName referrerName) w) of
                Inl c \<Rightarrow> Inl c
              | Inr ((canon, ret), w') \<Rightarrow> Inr (\<lparr>r0 = Some (CString canon), r1 = ucast ret\<rparr>, w')))"

section \<open>Loading a module\<close>

definition ResolveCallback :: "m_ctx \<Rightarrow> string \<Rightarrow> Module \<Rightarrow> Module option" where
  "ResolveCallback ctx specifier referrer =
     (let moduleName = c_str specifier in
      case resolved ctx (IdentityHash referrer) of
        None \<Rightarrow> None
      | Some localResolve \<Rightarrow>
          (case localResolve moduleName of None \<Rightarrow> None | Some m \<Rightarrow> Some m))"

text \<open>
  The loop over the module requests. It ends early with the status to return, or it
  ends with the table of resolved specifiers. The C \<^verbatim>\<open>int\<close> token widens to the Go
  \<^verbatim>\<open>int\<close> parameter of the exported function. The registry is read in the context as
  the resolver has left it.
\<close>

fun resolve_requests ::
  "host \<Rightarrow> string \<Rightarrow> c_int \<Rightarrow> string list \<Rightarrow> (string \<rightharpoonup> Module) \<Rightarrow> world
     \<Rightarrow> crash + ((c_int + (string \<rightharpoonup> Module)) \<times> world)" where
  "resolve_requests host name_s callback_index [] local_resolved w = Inr (Inr local_resolved, w)"
| "resolve_requests host name_s callback_index (dependency # rest) local_resolved w =
     (let dependencySpecifier = c_str dependency in
      case ResolveModule host dependencySpecifier name_s (scast callback_index) w of
        Inl c \<Rightarrow> Inl c
      | Inr (retval, w') \<Rightarrow>
          if r1 retval \<noteq> 0 then Inr (Inl (r1 retval), w')
          else case r0 retval of
                 None \<Rightarrow> Inl NullPointer
               | Some canon \<Rightarrow>
                   (case modules (w_ctx w') canon of
                      None \<Rightarrow> Inr (Inl 2, w')
                    | Some m \<Rightarrow>
                        resolve_requests host name_s callback_index rest
                          (local_resolved(dependencySpecifier \<mapsto> m)) w'))"

text \<open>
  \<^verbatim>\<open>LoadModule\<close> returns its status and leaves a world, or ends the process: on an
  assertion, or on a null message handed to \<^verbatim>\<open>printf\<close>.
\<close>

definition LoadModule ::
  "'s engine \<Rightarrow> host \<Rightarrow> string \<Rightarrow> string \<Rightarrow> c_int \<Rightarrow> world \<Rightarrow> crash + (c_int \<times> world)" where
  "LoadModule eng host source_s name_s callback_index w =
     (case CompileModule eng source_s name_s of
        Inl try_catch \<Rightarrow>
          if \<not> HasCaught try_catch then Inl AssertionFailed
          else let err = ExceptionError try_catch
               in (case printf_s (msg err) w of
                     Inl c \<Rightarrow> Inl c
                   | Inr w \<Rightarrow> Inr (1, w))
      | Inr module \<Rightarrow>
          (case resolve_requests host name_s callback_index (ModuleRequests module) Map.empty w of
             Inl c \<Rightarrow> Inl c
           | Inr (Inl st, w) \<Rightarrow> Inr (st, w)
           | Inr (Inr local_resolved, w) \<Rightarrow>
               let ctx = w_ctx w;
                   ctx = ctx\<lparr>modules := (modules ctx)(name_s \<mapsto> module)\<rparr>;
                   ctx = ctx\<lparr>resolved := (resolved ctx)(IdentityHash module \<mapsto> local_resolved)\<rparr>;
                   w = w\<lparr>w_ctx := ctx\<rparr>;
                   ok = InstantiateModule eng module (ResolveCallback ctx)
               in if \<not> FromMaybe ok False then Inr (3, w)
                  else
                    (case Module_Evaluate eng module of
                       Inl try_catch \<Rightarrow>
                         if \<not> HasCaught try_catch then Inl AssertionFailed
                         else let err = ExceptionError try_catch
                              in (case printf_s (msg err) w of
                                    Inl c \<Rightarrow> Inl c
                                  | Inr w \<Rightarrow> Inr (4, w))
                     | Inr result \<Rightarrow> Inr (0, w))))"

section \<open>Sending a message\<close>

text \<open>
  What a call of \<^verbatim>\<open>Send\<close> does: the calls of JavaScript functions it makes, each with
  its argument list, the lines it prints, and then the status it returns, unless a null
  pointer handed to \<^verbatim>\<open>printf\<close> ends the process first.
\<close>

record Send_result =
  Send_status :: "crash + c_int"
  Send_calls :: "(js_function \<times> js_value list) list"
  Send_printed :: "string list"

definition Send :: "'s engine \<Rightarrow> m_ctx \<Rightarrow> size_t \<Rightarrow> byte list \<Rightarrow> Send_result" where
  "Send eng ctx len data =
     (case cb_field ctx of
        None \<Rightarrow> \<lparr>Send_status = Inr 2, Send_calls = [], Send_printed = []\<rparr>
      | Some func \<Rightarrow>
          let args = [JSArrayBuffer (take (unat len) data)];
              try_catch = Function_Call eng func args
          in if HasCaught try_catch then
               let err = ExceptionError try_catch
               in (case msg err of
                     None \<Rightarrow>
                       \<lparr>Send_status = Inl NullPointer, Send_calls = [(func, args)], Send_printed = []\<rparr>
                   | Some m \<Rightarrow>
                       (case stack err of
                          None \<Rightarrow>
                            \<lparr>Send_status = Inl NullPointer, Send_calls = [(func, args)],
                             Send_printed = [m]\<rparr>
                        | Some s \<Rightarrow>
                            \<lparr>Send_status = Inr 3, Send_calls = [(func, args)],
                             Send_printed = [m, s]\<rparr>))
             else \<lparr>Send_status = Inr 0, Send_calls = [(func, args)], Send_printed = []\<rparr>)"

section \<open>The Go interface\<close>

record Engine =
  contextPtr :: ContextPtr

record Value =
  Value_ptr :: ValuePtr

record JSError =
  Message :: string
  Location :: string
  StackTrace :: string

definition getValue :: "RtnValue \<Rightarrow> Value option" where
  "getValue rtn =
     (case RtnValue_value rtn of
        None \<Rightarrow> None
      | Some p \<Rightarrow> Some \<lparr>Value_ptr = RtnValue_value rtn\<rparr>)"

definition getError :: "RtnValue \<Rightarrow> JSError option" where
  "getError rtn =
     (if msg (RtnValue_error rtn) = None then None
      else Some \<lparr>Message = GoString (msg (RtnValue_error rtn)),
                 Location = GoString (location (RtnValue_error rtn)),
                 StackTrace = GoString (stack (RtnValue_error rtn))\<rparr>)"

definition Engine_Run ::
  "'s engine \<Rightarrow> value_heap \<Rightarrow> Engine \<Rightarrow> string \<Rightarrow> string
     \<Rightarrow> (Value option \<times> JSError option) \<times> value_heap" where
  "Engine_Run eng h e source origin =
     (let cSource = CString source;
          cOrigin = CString origin;
          (rtn, h') = Run eng h (contextPtr e) cSource cOrigin
      in ((getValue rtn, getError rtn), h'))"

definition Value_finalizer :: "Value \<Rightarrow> value_heap \<Rightarrow> crash + (Value \<times> value_heap)" where
  "Value_finalizer v h =
     (case DisposeValue (Value_ptr v) h of
        Inl c \<Rightarrow> Inl c
      | Inr h' \<Rightarrow> Inr (v\<lparr>Value_ptr := None\<rparr>, h'))"

text \<open>
  \<^verbatim>\<open>Engine.LoadModule\<close>, on the engine whose context is in the world. The token narrows
  to a C \<^verbatim>\<open>int\<close> on the way in, the status widens to a Go \<^verbatim>\<open>int\<close> on the way out.
\<close>

definition Engine_LoadModule ::
  "'s engine \<Rightarrow> host \<Rightarrow> string \<Rightarrow> string \<Rightarrow> ModuleResolverCallback \<Rightarrow> world
     \<Rightarrow> crash + (go_int \<times> world)" where
  "Engine_LoadModule eng host source origin resolve w =
     (let cSource = CString source;
          cOrigin = CString origin;
          w = mutex_Lock w;
          w = w\<lparr>nextResolverToken := nextResolverToken w + 1\<rparr>;
          token = nextResolverToken w;
          w = map_store token resolve w;
          w = mutex_Unlock w;
          cToken = (ucast token :: c_int)
      in case LoadModule eng host cSource cOrigin cToken w of
           Inl c \<Rightarrow> Inl c
         | Inr (rtn, w) \<Rightarrow>
             let w = mutex_Lock w;
                 w = map_delete token w;
                 w = mutex_Unlock w
             in Inr (scast rtn, w))"

text \<open>
  \<^verbatim>\<open>Engine.Send\<close>: the error it returns, unless the process has ended, and what the C call
  did. \<^verbatim>\<open>C.CBytes\<close> copies the slice; \<^verbatim>\<open>len\<close> is a Go \<^verbatim>\<open>int\<close>.
\<close>

definition CBytes :: "byte list \<Rightarrow> byte list" where
  "CBytes b = b"

definition go_len :: "'a list \<Rightarrow> go_int" where
  "go_len xs = word_of_nat (length xs)"

definition Engine_Send ::
  "'s engine \<Rightarrow> m_ctx \<Rightarrow> byte list \<Rightarrow> (crash + string option) \<times> Send_result" where
  "Engine_Send eng ctx message =
     (let msgPointer = CBytes message;
          res = Send eng ctx (ucast (go_len message)) msgPointer
      in case Send_status res of
           Inl c \<Rightarrow> (Inl c, res)
         | Inr code \<Rightarrow>
             if code \<noteq> 0 then (Inr (Some (''expected 0, got '' @ dec_int (sint code))), res)
             else (Inr None, res))"

section \<open>Notions used to state the properties\<close>



text \<open>
  Reading a trace: the tokens stored, the resolvers invoked, and the state of the mutex.
  \<open>lock_run held es\<close> is \<open>None\<close> when \<open>es\<close> locks a held mutex, unlocks a free one or
  touches the table without holding it, and otherwise tells whether the mutex is held at
  the end.
\<close>

fun stored_tokens :: "event list \<Rightarrow> go_int list" where
  "stored_tokens [] = []"
| "stored_tokens (Store t # es) = t # stored_tokens es"
| "stored_tokens (e # es) = stored_tokens es"

fun invocations :: "event list \<Rightarrow> (go_int \<times> string \<times> string) list" where
  "invocations [] = []"
| "invocations (Invoke t m r # es) = (t, m, r) # invocations es"
| "invocations (e # es) = invocations es"

fun lock_run :: "bool \<Rightarrow> event list \<Rightarrow> bool option" where
  "lock_run held [] = Some held"
| "lock_run held (Lock # es) = (if held then None else lock_run True es)"
| "lock_run held (Unlock # es) = (if held then lock_run False es else None)"
| "lock_run held (Store t # es) = (if held then lock_run held es else None)"
| "lock_run held (Load t # es) = (if held then lock_run held es else None)"
| "lock_run held (Delete t # es) = (if held then lock_run held es else None)"
| "lock_run held (Invoke t m r # es) = lock_run held es"

text \<open>The \<open>k\<close> tokens that follow \<open>n\<close>: \<open>n + 1\<close>, ..., \<open>n + k\<close>, as the counter counts.\<close>

definition consecutive :: "go_int \<Rightarrow> nat \<Rightarrow> go_int list" where
  "consecutive n k = map (\<lambda>i. n + word_of_nat i) [1..<Suc k]"

text \<open>
  What a stretch of activity on the Go side may do to the package state, whoever is
  active, the bridge or a function of the host that calls back into it. The trace grows
  by \<open>es\<close>. The tokens stored in \<open>es\<close> are the next \<open>k\<close> of the counter, in order, and
  the counter has advanced by \<open>k\<close>. The mutex is free before and after, and the table
  is touched only while it is held. Every token stored in \<open>es\<close> is without resolver
  again at the end, and the other entries of the table are as they were.
\<close>

definition go_step :: "world \<Rightarrow> world \<Rightarrow> bool" where
  "go_step w w' \<longleftrightarrow>
     (\<exists>es k. trace w' = trace w @ es
        \<and> stored_tokens es = consecutive (nextResolverToken w) k
        \<and> nextResolverToken w' = nextResolverToken w + word_of_nat k
        \<and> lock_run False es = Some False
        \<and> (\<forall>t. resolverFuncs w' t =
                 (if t \<in> set (stored_tokens es) then None else resolverFuncs w t)))"

text \<open>
  The functions of the host act on the package state through the bridge only, its
  variables being private to the package: whenever one returns, it has made such a step.
\<close>

definition host_steps :: "host \<Rightarrow> bool" where
  "host_steps host \<longleftrightarrow>
     (\<forall>f moduleName referrerName w x w'.
        host f moduleName referrerName w = Inr (x, w') \<longrightarrow> go_step w w')"

text \<open>
  A state the package can be in: the tokens stored since the start of the program are
  1, 2, ... up to the counter.
\<close>

definition counted :: "world \<Rightarrow> bool" where
  "counted w \<longleftrightarrow>
     (\<exists>n. stored_tokens (trace w) = consecutive 0 n \<and> nextResolverToken w = word_of_nat n)"

text \<open>
  Functions of a host that leave the context of the engine alone: they load no module
  and register no callback before they return.
\<close>

definition host_keeps_context :: "host \<Rightarrow> bool" where
  "host_keeps_context host \<longleftrightarrow>
     (\<forall>f moduleName referrerName w x w'.
        host f moduleName referrerName w = Inr (x, w') \<longrightarrow> w_ctx w' = w_ctx w)"

text \<open>A status of a resolver, a Go \<^verbatim>\<open>int\<close>, that a C \<^verbatim>\<open>int\<close> can hold.\<close>

definition fits_c_int :: "go_int \<Rightarrow> bool" where
  "fits_c_int x \<longleftrightarrow> - (2 ^ 31) \<le> sint x \<and> sint x < 2 ^ 31"

section \<open>A small engine and a small host for the concrete scenarios\<close>

text \<open>
  An engine that knows a handful of sources, enough to run the scenarios of the
  specification. A compiled script is its source with the resource name it was compiled
  under, and an exception reports that resource name, as the real engine does. A thrown
  value that is not an object has no stack trace.
\<close>

definition thrown :: "string \<Rightarrow> string \<Rightarrow> c_int \<Rightarrow> c_int \<Rightarrow> Utf8Value option \<Rightarrow> TryCatch" where
  "thrown text resource line col trace_text =
     \<lparr>HasCaught = True, HasTerminated = False, Exception_tc = Some text,
      Message_tc = Some \<lparr>ResourceName = Some resource, LineNumber = Some line,
                         StartColumn = Some col\<rparr>,
      StackTrace_tc = trace_text\<rparr>"

definition no_exception :: TryCatch where
  "no_exception =
     \<lparr>HasCaught = False, HasTerminated = False, Exception_tc = None, Message_tc = None,
      StackTrace_tc = None\<rparr>"

definition example_module :: "string \<Rightarrow> string \<Rightarrow> Module" where
  "example_module source_text name =
     (if source_text = ''import \"dep.js\";'' then
        \<lparr>module_id = 1, IdentityHash = 11, ModuleRequests = [''dep.js'']\<rparr>
      else if source_text = ''throw 1;'' then
        \<lparr>module_id = 2, IdentityHash = 12, ModuleRequests = []\<rparr>
      else if source_text = ''import {nope} from \"dep.js\";'' then
        \<lparr>module_id = 3, IdentityHash = 13, ModuleRequests = [''dep.js'']\<rparr>
      else if source_text = ''throw \"\";'' then
        \<lparr>module_id = 4, IdentityHash = 14, ModuleRequests = []\<rparr>
      else if source_text = ''import \"b.js\"; import \"c.js\";'' then
        \<lparr>module_id = 5, IdentityHash = 15, ModuleRequests = [''b.js'', ''c.js'']\<rparr>
      else \<lparr>module_id = 0, IdentityHash = 10, ModuleRequests = []\<rparr>)"

definition example_engine :: "(string \<times> string) engine" where
  "example_engine =
     \<lparr>Script_Compile = (\<lambda>source resource.
        if source = ''1+'' then
          Inl (thrown ''SyntaxError: Unexpected end of input'' resource 1 2 None)
        else Inr (source, resource)),
      Script_Run = (\<lambda>(source, resource).
        if source = ''throw new Error('boom')'' then
          Inl (thrown ''Error: boom'' resource 1 0 (Some (Some ''Error: boom'')))
        else if source = ''throw \"\"'' then
          Inl (thrown [] resource 1 0 None)
        else Inr (JSOther 2)),
      CompileModule = (\<lambda>source_text name.
        if source_text = ''export'' then
          Inl (thrown ''SyntaxError: Unexpected end of input'' name 1 6 None)
        else Inr (example_module source_text name)),
      InstantiateModule = (\<lambda>module resolve.
        if module_id module = 3 then None
        else Some (list_all (\<lambda>specifier. resolve specifier module \<noteq> None)
                     (ModuleRequests module))),
      Module_Evaluate = (\<lambda>module.
        if module_id module = 2 then Inl (thrown ''1'' ''m.js'' 1 0 None)
        else if module_id module = 4 then Inl (thrown [] ''m.js'' 1 0 None)
        else Inr JSUndefined),
      Function_Call = (\<lambda>func args.
        if func = 7 then thrown ''Error: no'' ''cb.js'' 1 0 (Some (Some ''Error: no''))
        else if func = 8 then thrown ''1'' ''cb.js'' 1 0 None
        else no_exception)\<rparr>"

definition empty_heap :: value_heap where
  "empty_heap = \<lparr>cells = Map.empty, next_free = 0\<rparr>"

definition example_Engine :: Engine where
  "example_Engine = \<lparr>contextPtr = Some 0\<rparr>"

text \<open>
  Four functions of a host. Function 1 knows \<^verbatim>\<open>dep.js\<close> and fails with status 5 on
  everything else, function 2 fails with status 5 on everything, and function 4 answers
  \<^verbatim>\<open>dep.js\<close> with the status \<open>2^32\<close>; none of them touches the world. Function 3 loads
  \<^verbatim>\<open>b.js\<close> through the bridge when it is asked for it, with function 2 as the resolver
  of that load, and answers with the status of the load; it fails with status 7 on
  everything else.
\<close>

definition example_resolver :: "string \<Rightarrow> string \<Rightarrow> string \<times> go_int" where
  "example_resolver moduleName referrerName =
     (if moduleName = ''dep.js'' then (''dep.js'', 0) else ([], 5))"

definition failing_resolver :: "string \<Rightarrow> string \<Rightarrow> string \<times> go_int" where
  "failing_resolver moduleName referrerName = ([], 5)"

definition plain_host :: host where
  "plain_host f moduleName referrerName w =
     Inr (if f = 1 then example_resolver moduleName referrerName
          else if f = 4 then (''dep.js'', 4294967296)
          else failing_resolver moduleName referrerName, w)"

definition example_host :: host where
  "example_host f moduleName referrerName w =
     (if f = 3 then
        (if moduleName = ''b.js'' then
           (case Engine_LoadModule example_engine plain_host ''export const b = 1;'' ''b.js''
                   (Some 2) w of
              Inl c \<Rightarrow> Inl c
            | Inr (st, w') \<Rightarrow> Inr ((''b.js'', st), w'))
         else Inr (([], 7), w))
      else plain_host f moduleName referrerName w)"

text \<open>
  The world while a load under token 1 is running, and a context that has loaded
  \<^verbatim>\<open>dep.js\<close>.
\<close>

definition world_with_resolver :: "m_ctx \<Rightarrow> ModuleResolverCallback \<Rightarrow> world" where
  "world_with_resolver ctx resolve =
     \<lparr>w_ctx = ctx, nextResolverToken = 1, resolverFuncs = [1 \<mapsto> resolve],
      trace = [Lock, Store 1, Unlock], stdout = []\<rparr>"

definition ctx_with_dep :: m_ctx where
  "ctx_with_dep =
     NewContext\<lparr>modules := [''dep.js'' \<mapsto> example_module ''export const x = 1;'' ''dep.js'']\<rparr>"

text \<open>
  The world that the load of \<^verbatim>\<open>import "b.js"; import "c.js";\<close> under token 1, with
  function 3 as its resolver, is in when its first request has been resolved, and the
  world in which its second request fails.
\<close>

definition world_after_b :: world where
  "world_after_b =
     \<lparr>w_ctx = NewContext\<lparr>modules := [''b.js'' \<mapsto> example_module ''export const b = 1;'' ''b.js''],
                          resolved := [10 \<mapsto> Map.empty]\<rparr>,
      nextResolverToken = 2,
      resolverFuncs = [1 \<mapsto> Some 3],
      trace = [Lock, Store 1, Unlock,
               Lock, Load 1, Unlock, Invoke 1 ''b.js'' ''a.js'',
               Lock, Store 2, Unlock, Lock, Delete 2, Unlock],
      stdout = []\<rparr>"

definition world_after_nested_load :: world where
  "world_after_nested_load =
     world_after_b\<lparr>trace := trace world_after_b
                       @ [Lock, Load 1, Unlock, Invoke 1 ''c.js'' ''a.js'']\<rparr>"
section \<open>Properties\<close>

subsection \<open>C strings\<close>

lemma c_str_no_NUL: "CHR 0x00 \<notin> set (c_str s)"
  unfolding c_str_def by (auto dest: set_takeWhileD)

lemma c_str_idem: "c_str (c_str s) = c_str s"
  unfolding c_str_def by simp

lemma c_str_id: "CHR 0x00 \<notin> set s \<Longrightarrow> c_str s = s"
  unfolding c_str_def by (induction s) auto

lemma c_str_append_NUL: "c_str (s @ [CHR 0x00]) = c_str s"
  unfolding c_str_def by (induction s) auto

lemma c_str_append: "CHR 0x00 \<notin> set s \<Longrightarrow> c_str (s @ t) = s @ c_str t"
  unfolding c_str_def by (induction s) auto

lemma CopyString_c_str: "CopyString s = c_str s"
  by (simp add: CopyString_def c_str_append_NUL)

lemma dec_nat_no_NUL: "CHR 0x00 \<notin> set (dec_nat n)"
proof (induction n rule: dec_nat.induct)
  case (1 n)
  have digit: "CHR 0x00 \<noteq> ''0123456789'' ! k" if "k < 10" for k :: nat
  proof -
    from that have "k \<in> {0, 1, 2, 3, 4, 5, 6, 7, 8, 9}" by auto
    then show ?thesis by auto
  qed
  show ?case
  proof (cases "n < 10")
    case True
    then show ?thesis using digit [of n] by (simp add: dec_nat.simps [of n])
  next
    case False
    then show ?thesis using 1 digit [of "n mod 10"] by (simp add: dec_nat.simps [of n])
  qed
qed

lemma dec_int_no_NUL: "CHR 0x00 \<notin> set (dec_int i)"
  by (simp add: dec_int_def dec_nat_no_NUL)

subsection \<open>Marshalling an exception\<close>

lemma sint_succ:
  assumes "sint (c :: c_int) < 2147483647" shows "sint (c + 1) = sint c + 1"
proof -
  have "- (2 ^ 31) \<le> sint c" using sint_ge [of c] by simp
  then have "signed_take_bit 31 (sint c + 1) = sint c + 1"
    using assms by (intro signed_take_bit_int_eq_self) auto
  then show ?thesis by (simp add: sint_word_ariths)
qed

lemma c_str_colon: "c_str '':'' = '':''"
  by (simp add: c_str_def)

lemma ExceptionError_terminated:
  "HasTerminated tc \<Longrightarrow>
   ExceptionError tc =
     \<lparr>msg = Some ''ExecutionTerminated: script execution has been terminated'',
      location = None, stack = None\<rparr>"
  by (simp add: ExceptionError_def CopyString_def c_str_def)

lemma ExceptionError_no_message:
  "\<not> HasTerminated tc \<Longrightarrow> Message_tc tc = None \<Longrightarrow> location (ExceptionError tc) = None"
  by (simp add: ExceptionError_def Let_def split: option.splits)

lemma ExceptionError_location:
  assumes "\<not> HasTerminated tc" "Message_tc tc = Some m" "ResourceName m = Some origin"
    "\<forall>c. StartColumn m = Some c \<longrightarrow> sint c < 2147483647"
  shows "location (ExceptionError tc) = Some (c_str origin
        @ (case LineNumber m of None \<Rightarrow> [] | Some l \<Rightarrow> '':'' @ dec_int (sint l))
        @ (case StartColumn m of None \<Rightarrow> [] | Some c \<Rightarrow> '':'' @ dec_int (sint c + 1)))"
proof -
  have nn: "CHR 0x00 \<notin> set (c_str origin
        @ (case LineNumber m of None \<Rightarrow> [] | Some l \<Rightarrow> '':'' @ dec_int (sint l))
        @ (case StartColumn m of None \<Rightarrow> [] | Some c \<Rightarrow> '':'' @ dec_int (sint c + 1)))"
    by (auto simp: c_str_no_NUL dec_int_no_NUL split: option.splits)
  show ?thesis
    using assms nn
    by (auto simp add: ExceptionError_def Let_def put_cstr_def put_int_def new_ostringstream_def
          CopyString_c_str c_str_colon sint_succ c_str_id split: option.splits)
qed

lemma ExceptionError_null_origin:
  "\<not> HasTerminated tc \<Longrightarrow> Message_tc tc = Some m \<Longrightarrow> ResourceName m = None \<Longrightarrow>
   location (ExceptionError tc) = Some []"
  by (auto simp add: ExceptionError_def Let_def put_cstr_def put_int_def new_ostringstream_def
        CopyString_def c_str_def split: option.splits)

text \<open>
  Claim C6. A terminated execution is marshalled to the fixed message
  \<^verbatim>\<open>ExecutionTerminated: script execution has been terminated\<close> with neither location nor
  stack. Otherwise there is no location without a message object, and with one the
  location is the resource name, then \<^verbatim>\<open>:line\<close> when the line is known, then
  \<^verbatim>\<open>:column\<close> when the start column is known, the column being the engine's plus one;
  nothing stands in for a missing segment. The engine's columns are positions in a
  source text and stay below the largest C \<^verbatim>\<open>int\<close>, so that the addition does not
  overflow. A throw on line 2 at zero-based column 2, the third character, gives a
  location that ends in \<^verbatim>\<open>:2:3\<close>.
\<close>
theorem ExceptionError_marshalling:
  "(HasTerminated tc \<longrightarrow>
      ExceptionError tc =
        \<lparr>msg = Some ''ExecutionTerminated: script execution has been terminated'',
         location = None, stack = None\<rparr>)
   \<and> (\<not> HasTerminated tc \<longrightarrow> Message_tc tc = None \<longrightarrow> location (ExceptionError tc) = None)
   \<and> (\<not> HasTerminated tc \<longrightarrow> Message_tc tc = Some m \<longrightarrow> ResourceName m = Some origin \<longrightarrow>
        (\<forall>c. StartColumn m = Some c \<longrightarrow> sint c < 2147483647) \<longrightarrow>
        location (ExceptionError tc) =
          Some (c_str origin
            @ (case LineNumber m of None \<Rightarrow> [] | Some l \<Rightarrow> '':'' @ dec_int (sint l))
            @ (case StartColumn m of None \<Rightarrow> [] | Some c \<Rightarrow> '':'' @ dec_int (sint c + 1))))
   \<and> (\<not> HasTerminated tc \<longrightarrow> Message_tc tc = Some m \<longrightarrow> ResourceName m = Some origin \<longrightarrow>
        LineNumber m = Some 2 \<longrightarrow> StartColumn m = Some 2 \<longrightarrow>
        location (ExceptionError tc) = Some (c_str origin @ '':2:3''))"
proof (intro conjI impI)
  assume "HasTerminated tc"
  then show "ExceptionError tc =
        \<lparr>msg = Some ''ExecutionTerminated: script execution has been terminated'',
         location = None, stack = None\<rparr>"
    by (rule ExceptionError_terminated)
next
  assume "\<not> HasTerminated tc" "Message_tc tc = None"
  then show "location (ExceptionError tc) = None" by (rule ExceptionError_no_message)
next
  assume "\<not> HasTerminated tc" "Message_tc tc = Some m" "ResourceName m = Some origin"
    "\<forall>c. StartColumn m = Some c \<longrightarrow> sint c < 2147483647"
  then show "location (ExceptionError tc) =
          Some (c_str origin
            @ (case LineNumber m of None \<Rightarrow> [] | Some l \<Rightarrow> '':'' @ dec_int (sint l))
            @ (case StartColumn m of None \<Rightarrow> [] | Some c \<Rightarrow> '':'' @ dec_int (sint c + 1)))"
    by (rule ExceptionError_location)
next
  assume a: "\<not> HasTerminated tc" "Message_tc tc = Some m" "ResourceName m = Some origin"
    and l: "LineNumber m = Some 2" and c: "StartColumn m = Some 2"
  from c have "\<forall>c. StartColumn m = Some c \<longrightarrow> sint c < 2147483647" by simp
  from ExceptionError_location [OF a this] l c
  show "location (ExceptionError tc) = Some (c_str origin @ '':2:3'')"
    by (simp add: dec_int_def dec_nat.simps)
qed

text \<open>The marshalling of C6 on a terminated execution, on an exception without a message
  object and on two thrown errors.\<close>
theorem ExceptionError_marshalling_witness:
  "ExceptionError (thrown ''Error: boom'' ''test.js'' 2 2 None\<lparr>HasTerminated := True\<rparr>) =
     \<lparr>msg = Some ''ExecutionTerminated: script execution has been terminated'',
      location = None, stack = None\<rparr>
   \<and> location (ExceptionError (no_exception\<lparr>Exception_tc := Some ''x''\<rparr>)) = None
   \<and> location (ExceptionError (thrown ''Error: boom'' ''test.js'' 2 2 None)) = Some ''test.js:2:3''
   \<and> location (ExceptionError (thrown ''Error: boom'' ''test.js'' 12 0 None)) = Some ''test.js:12:1''"
  using ExceptionError_marshalling [of "thrown ''Error: boom'' ''test.js'' 2 2 None\<lparr>HasTerminated := True\<rparr>"]
    ExceptionError_marshalling [of "no_exception\<lparr>Exception_tc := Some ''x''\<rparr>"]
    ExceptionError_marshalling [of "thrown ''Error: boom'' ''test.js'' 2 2 None"
      "\<lparr>ResourceName = Some ''test.js'', LineNumber = Some 2, StartColumn = Some 2\<rparr>" "''test.js''"]
    ExceptionError_marshalling [of "thrown ''Error: boom'' ''test.js'' 12 0 None"
      "\<lparr>ResourceName = Some ''test.js'', LineNumber = Some 12, StartColumn = Some 0\<rparr>" "''test.js''"]
  by (simp add: thrown_def no_exception_def c_str_def dec_int_def dec_nat.simps)

subsection \<open>Running a script\<close>

lemmas eval_defs = Engine_Run_def Run_def CString_def GoString_def c_str_def example_engine_def thrown_def
  ExceptionError_def getValue_def getError_def CopyString_Utf8Value_def CopyString_def Utf8Value_length_def
  put_cstr_def put_int_def new_ostringstream_def dec_int_def dec_nat.simps Let_def new_m_value_def empty_heap_def
  example_Engine_def

text \<open>
  Claim C1. \<^verbatim>\<open>Run\<close> is to compile the script under the origin name it is given. It
  builds the resource name from \<^verbatim>\<open>source\<close> instead: an engine that reports the
  resource name a script was compiled under makes \<^verbatim>\<open>Run(ctx, "throw new Error('boom')",
  "test.js")\<close> return the location \<^verbatim>\<open>throw new Error('boom'):1:1\<close>, in which
  \<^verbatim>\<open>test.js\<close> does not occur.
\<close>
theorem Run_tags_script_with_source:
  "fst (Engine_Run example_engine empty_heap example_Engine ''throw new Error('boom')'' ''test.js'')
     = (None, Some \<lparr>Message = ''Error: boom'', Location = ''throw new Error('boom'):1:1'',
                     StackTrace = ''Error: boom''\<rparr>)"
  by (simp add: eval_defs)

text \<open>Whatever the engine, the result of \<^verbatim>\<open>Run\<close> does not depend on its \<open>origin\<close>.\<close>
lemma Run_origin_unused: "Run eng h ptr source origin = Run eng h ptr source origin'"
  by (simp add: Run_def)

text \<open>
  Claim C7. A script that fails is to give an error and no value. A script that throws
  the empty string fails, but the text of its exception has length 0, so
  \<^verbatim>\<open>CopyString\<close> hands back a null message and \<^verbatim>\<open>getError\<close> takes the null message
  for success: \<^verbatim>\<open>Run\<close> returns neither a value nor an error.
\<close>
theorem Run_empty_exception_text:
  "fst (Engine_Run example_engine empty_heap example_Engine ''throw \"\"'' ''test.js'') = (None, None)"
  by (simp add: eval_defs)

text \<open>
  The other half of C7 holds: a value and no error come back exactly when the script
  compiles and runs. What a failure returns is the marshalled exception, unless its
  message is null.
\<close>
lemma Engine_Run_value_iff:
  "(fst (fst (Engine_Run eng h e source origin)) \<noteq> None \<and> snd (fst (Engine_Run eng h e source origin)) = None)
   \<longleftrightarrow> (\<exists>script result. Script_Compile eng (CString source) (CString source) = Inr script
          \<and> Script_Run eng script = Inr result)"
  by (auto simp: Engine_Run_def Run_def Let_def getValue_def getError_def new_m_value_def split: sum.splits prod.splits)

lemma Engine_Run_failure_no_value:
  "Script_Compile eng (CString source) (CString source) = Inl tc \<or>
   (Script_Compile eng (CString source) (CString source) = Inr script \<and> Script_Run eng script = Inl tc)
   \<Longrightarrow> fst (fst (Engine_Run eng h e source origin)) = None
     \<and> snd (fst (Engine_Run eng h e source origin)) =
         (if msg (ExceptionError tc) = None then None else
          Some \<lparr>Message = GoString (msg (ExceptionError tc)),
                 Location = GoString (location (ExceptionError tc)),
                 StackTrace = GoString (stack (ExceptionError tc))\<rparr>)"
  by (auto simp: Engine_Run_def Run_def Let_def getValue_def getError_def new_m_value_def split: sum.splits prod.splits)

lemma ExceptionError_msg_None_iff:
  "msg (ExceptionError tc) = None \<longleftrightarrow> \<not> HasTerminated tc \<and> Utf8Value_length (Exception_tc tc) = 0"
  by (auto simp: ExceptionError_def Let_def CopyString_Utf8Value_def Utf8Value_length_def split: option.splits)

subsection \<open>Sending a message\<close>

lemmas example_defs = example_engine_def thrown_def no_exception_def ExceptionError_def
  CopyString_Utf8Value_def CopyString_def Utf8Value_length_def c_str_def put_cstr_def put_int_def
  new_ostringstream_def dec_int_def dec_nat.simps Let_def

text \<open>
  Claim C4 says that \<^verbatim>\<open>Send\<close> returns 3 when the callback throws. A callback that throws
  the number 1 leaves an exception without a stack trace: \<^verbatim>\<open>ExceptionError\<close> gives a
  null \<^verbatim>\<open>stack\<close>, \<^verbatim>\<open>Send\<close> prints the message and hands the null pointer to \<^verbatim>\<open>printf\<close>,
  and the process ends there; no status is returned.
\<close>
theorem Send_thrown_primitive:
  "Send_status (Send example_engine (NewContext\<lparr>cb_field := Some 8\<rparr>) 2 [1, 2]) = Inl NullPointer
   \<and> Send_printed (Send example_engine (NewContext\<lparr>cb_field := Some 8\<rparr>) 2 [1, 2]) = [''1'']
   \<and> fst (Engine_Send example_engine (NewContext\<lparr>cb_field := Some 8\<rparr>) [1, 2]) = Inl NullPointer"
  by (simp add: Engine_Send_def CBytes_def go_len_def Send_def NewContext_def example_defs)

text \<open>
  The rest of the claim holds: \<^verbatim>\<open>Send\<close> returns 2 on an empty slot, a new context
  included, whatever the payload; 3 when the call leaves an exception whose message and
  stack trace are both there, after printing them; and 0 when the call leaves no
  exception. It ends the process whenever one of the two diagnostics is null.
\<close>

lemma Send_status_cases:
  "Send_status (Send eng NewContext len data) = Inr 2
   \<and> (cb_field ctx = None \<longrightarrow>
        Send eng ctx len data = \<lparr>Send_status = Inr 2, Send_calls = [], Send_printed = []\<rparr>)
   \<and> (\<forall>func m s. cb_field ctx = Some func \<longrightarrow>
        HasCaught (Function_Call eng func [JSArrayBuffer (take (unat len) data)]) \<longrightarrow>
        msg (ExceptionError (Function_Call eng func [JSArrayBuffer (take (unat len) data)])) = Some m \<longrightarrow>
        stack (ExceptionError (Function_Call eng func [JSArrayBuffer (take (unat len) data)])) = Some s \<longrightarrow>
        Send_status (Send eng ctx len data) = Inr 3
        \<and> Send_printed (Send eng ctx len data) = [m, s])
   \<and> (\<forall>func. cb_field ctx = Some func \<longrightarrow>
        \<not> HasCaught (Function_Call eng func [JSArrayBuffer (take (unat len) data)]) \<longrightarrow>
        Send_status (Send eng ctx len data) = Inr 0 \<and> Send_printed (Send eng ctx len data) = [])"
  by (simp add: Send_def NewContext_def Let_def)

lemma Send_null_diagnostic:
  "cb_field ctx = Some func \<Longrightarrow>
   HasCaught (Function_Call eng func [JSArrayBuffer (take (unat len) data)]) \<Longrightarrow>
   msg (ExceptionError (Function_Call eng func [JSArrayBuffer (take (unat len) data)])) = None
   \<or> stack (ExceptionError (Function_Call eng func [JSArrayBuffer (take (unat len) data)])) = None \<Longrightarrow>
   Send_status (Send eng ctx len data) = Inl NullPointer"
  by (auto simp: Send_def Let_def split: option.splits)


subsection \<open>Registering a callback\<close>


lemma cb_Inr_iff: "cb args ctx = Inr ctx' \<longleftrightarrow> (\<exists>f rest. args = JSFunction f # rest \<and> ctx' = ctx\<lparr>cb_field := Some f\<rparr>)"
  by (auto simp: cb_def split: list.splits js_value.splits)






subsection \<open>Disposing a value\<close>

text \<open>
  Claim C9. \<^verbatim>\<open>DisposeValue\<close> of a null pointer returns at once. At the Go interface a
  value is disposed through \<^verbatim>\<open>Value.finalizer\<close>, which clears the pointer it has
  disposed: whenever it returns, running it again on the value and the heap it left
  returns without an error and changes neither. On a live value it does return.
\<close>
theorem Value_disposal_idempotent:
  "DisposeValue None h = Inr h
   \<and> (\<forall>v' h'. Value_finalizer v h = Inr (v', h') \<longrightarrow>
        Value_ptr v' = None \<and> Value_finalizer v' h' = Inr (v', h'))
   \<and> (\<forall>a val. Value_ptr v = Some a \<longrightarrow> cells h a = Some val \<longrightarrow>
        (\<exists>h'. Value_finalizer v h = Inr (v\<lparr>Value_ptr := None\<rparr>, h')))"
  by (auto simp: DisposeValue_def Value_finalizer_def split: option.splits sum.splits)

text \<open>C9 on the value of a script that ran: the first disposal frees the cell, the second
  changes nothing.\<close>
theorem Value_disposal_idempotent_witness:
  "Value_finalizer \<lparr>Value_ptr = Some 0\<rparr>
       \<lparr>cells = [0 \<mapsto> \<lparr>m_value_ptr = Some (JSOther 2), m_value_context = Some 0\<rparr>], next_free = 1\<rparr>
     = Inr (\<lparr>Value_ptr = None\<rparr>, \<lparr>cells = Map.empty, next_free = 1\<rparr>)
   \<and> Value_finalizer \<lparr>Value_ptr = None\<rparr> \<lparr>cells = Map.empty, next_free = 1\<rparr>
     = Inr (\<lparr>Value_ptr = None\<rparr>, \<lparr>cells = Map.empty, next_free = 1\<rparr>)"
  using Value_disposal_idempotent [of
      "\<lparr>cells = [0 \<mapsto> \<lparr>m_value_ptr = Some (JSOther 2), m_value_context = Some 0\<rparr>], next_free = 1\<rparr>"
      "\<lparr>Value_ptr = Some 0\<rparr>"]
  by (simp add: Value_finalizer_def DisposeValue_def)

text \<open>
  The idempotence is the work of the Go side. \<^verbatim>\<open>DisposeValue\<close> itself, called a second
  time with the pointer it has freed, reads the freed object.
\<close>
lemma DisposeValue_twice:
  "cells h a = Some val \<Longrightarrow> m_value_context val \<noteq> None \<Longrightarrow>
   DisposeValue (Some a) h = Inr h' \<Longrightarrow> DisposeValue (Some a) h' = Inl UseAfterFree"
  by (auto simp: DisposeValue_def split: option.splits)

subsection \<open>Traces and the package state\<close>

lemma stored_tokens_append: "stored_tokens (xs @ ys) = stored_tokens xs @ stored_tokens ys"
  by (induction xs rule: stored_tokens.induct) auto

lemma invocations_append: "invocations (xs @ ys) = invocations xs @ invocations ys"
  by (induction xs rule: invocations.induct) auto

lemma lock_run_append:
  "lock_run held (xs @ ys) = (case lock_run held xs of None \<Rightarrow> None | Some held' \<Rightarrow> lock_run held' ys)"
  by (induction held xs rule: lock_run.induct) auto

lemma consecutive_0: "consecutive n 0 = []"
  by (simp add: consecutive_def)

lemma consecutive_snoc: "consecutive n (Suc k) = consecutive n k @ [n + word_of_nat (Suc k)]"
  by (simp add: consecutive_def)

lemma consecutive_add:
  "consecutive n (j + k) = consecutive n j @ consecutive (n + word_of_nat j) k"
proof (induction k)
  case 0
  then show ?case by (simp add: consecutive_0)
next
  case (Suc k)
  have "consecutive n (j + Suc k) = consecutive n (j + k) @ [n + word_of_nat (Suc (j + k))]"
    using consecutive_snoc [of n "j + k"] by simp
  also have "\<dots> = consecutive n j @ consecutive (n + word_of_nat j) k
                  @ [n + word_of_nat j + word_of_nat (Suc k)]"
    using Suc.IH by (simp add: algebra_simps)
  also have "\<dots> = consecutive n j @ consecutive (n + word_of_nat j) (Suc k)"
    using consecutive_snoc [of "n + word_of_nat j" k] by simp
  finally show ?case .
qed

lemma consecutive_Suc: "consecutive n (Suc k) = (n + 1) # consecutive (n + 1) k"
proof -
  have "consecutive n 1 = [n + 1]" by (simp add: consecutive_def)
  with consecutive_add [of n 1 k] show ?thesis by simp
qed

lemma length_consecutive: "length (consecutive n k) = k"
  by (simp add: consecutive_def)

lemma go_step_refl: "go_step w w"
  unfolding go_step_def by (rule exI [of _ "[]"], rule exI [of _ 0]) (simp add: consecutive_0)

lemma go_step_trace_only:
  assumes "stored_tokens es = []" "lock_run False es = Some False"
  shows "go_step w (w\<lparr>trace := trace w @ es\<rparr>)"
  unfolding go_step_def using assms
  by (intro exI [of _ es] exI [of _ 0]) (simp add: consecutive_0)

lemma go_step_trans:
  assumes "go_step w w1" "go_step w1 w2"
  shows "go_step w w2"
proof -
  from assms(1) obtain es1 k1 where 1: "trace w1 = trace w @ es1"
    "stored_tokens es1 = consecutive (nextResolverToken w) k1"
    "nextResolverToken w1 = nextResolverToken w + word_of_nat k1"
    "lock_run False es1 = Some False"
    "\<forall>t. resolverFuncs w1 t = (if t \<in> set (stored_tokens es1) then None else resolverFuncs w t)"
    unfolding go_step_def by blast
  from assms(2) obtain es2 k2 where 2: "trace w2 = trace w1 @ es2"
    "stored_tokens es2 = consecutive (nextResolverToken w1) k2"
    "nextResolverToken w2 = nextResolverToken w1 + word_of_nat k2"
    "lock_run False es2 = Some False"
    "\<forall>t. resolverFuncs w2 t = (if t \<in> set (stored_tokens es2) then None else resolverFuncs w1 t)"
    unfolding go_step_def by blast
  have "trace w2 = trace w @ (es1 @ es2)" using 1(1) 2(1) by simp
  moreover have "stored_tokens (es1 @ es2) = consecutive (nextResolverToken w) (k1 + k2)"
    using 1(2,3) 2(2) by (simp add: stored_tokens_append consecutive_add)
  moreover have "nextResolverToken w2 = nextResolverToken w + word_of_nat (k1 + k2)"
    using 1(3) 2(3) by simp
  moreover have "lock_run False (es1 @ es2) = Some False"
    using 1(4) 2(4) by (simp add: lock_run_append)
  moreover have "\<forall>t. resolverFuncs w2 t =
      (if t \<in> set (stored_tokens (es1 @ es2)) then None else resolverFuncs w t)"
    using 1(5) 2(5) by (simp add: stored_tokens_append)
  ultimately show ?thesis unfolding go_step_def by blast
qed

lemma ResolveModule_no_resolver:
  "map_index (resolverFuncs w) tok = None \<Longrightarrow>
   ResolveModule host spec ref tok w =
     Inr (\<lparr>r0 = None, r1 = 1\<rparr>, w\<lparr>trace := trace w @ [Lock, Load tok, Unlock]\<rparr>)"
  by (simp add: ResolveModule_def emit_def Let_def mutex_Lock_def mutex_Unlock_def map_load_def)

lemma ResolveModule_resolver:
  "map_index (resolverFuncs w) tok = Some f \<Longrightarrow>
   ResolveModule host spec ref tok w =
     (case host f (c_str spec) (c_str ref)
             (w\<lparr>trace := trace w @ [Lock, Load tok, Unlock, Invoke tok (c_str spec) (c_str ref)]\<rparr>) of
        Inl c \<Rightarrow> Inl c
      | Inr ((canon, ret), w') \<Rightarrow> Inr (\<lparr>r0 = Some (CString canon), r1 = ucast ret\<rparr>, w'))"
  by (simp add: ResolveModule_def emit_def Let_def mutex_Lock_def mutex_Unlock_def map_load_def
        GoString_def)

lemma ResolveModule_null_name:
  "ResolveModule host spec ref tok w = Inr (retval, w') \<Longrightarrow> r0 retval = None \<Longrightarrow> r1 retval = 1"
  by (cases "map_index (resolverFuncs w) tok")
     (auto simp: ResolveModule_no_resolver ResolveModule_resolver split: sum.splits prod.splits)

lemma ResolveModule_go_step:
  assumes "host_steps host" "ResolveModule host spec ref tok w = Inr (retval, w')"
  shows "go_step w w'"
proof (cases "map_index (resolverFuncs w) tok")
  case None
  with assms(2) have "w' = w\<lparr>trace := trace w @ [Lock, Load tok, Unlock]\<rparr>"
    by (simp add: ResolveModule_no_resolver)
  then show ?thesis by (simp add: go_step_trace_only)
next
  case (Some f)
  let ?w1 = "w\<lparr>trace := trace w @ [Lock, Load tok, Unlock, Invoke tok (c_str spec) (c_str ref)]\<rparr>"
  from assms(2) Some obtain x where "host f (c_str spec) (c_str ref) ?w1 = Inr (x, w')"
    by (auto simp: ResolveModule_resolver split: sum.splits prod.splits)
  with assms(1) have "go_step ?w1 w'" unfolding host_steps_def by blast
  moreover have "go_step w ?w1" by (simp add: go_step_trace_only)
  ultimately show ?thesis by (rule go_step_trans [rotated])
qed
subsection \<open>The paths through \<^verbatim>\<open>LoadModule\<close>\<close>

declare resolve_requests.simps(2) [simp del]

lemma go_step_same_package_state:
  assumes "go_step w w2" "trace w' = trace w2" "nextResolverToken w' = nextResolverToken w2"
    "resolverFuncs w' = resolverFuncs w2"
  shows "go_step w w'"
  using assms unfolding go_step_def by simp

lemma resolve_requests_step:
  assumes "ResolveModule host (c_str d) name_s (scast idx) w = Inr (retval, w')"
  shows "resolve_requests host name_s idx (d # rest) lr w =
     (if r1 retval \<noteq> 0 then Inr (Inl (r1 retval), w')
      else case r0 retval of
             None \<Rightarrow> Inl NullPointer
           | Some canon \<Rightarrow>
               (case modules (w_ctx w') canon of
                  None \<Rightarrow> Inr (Inl 2, w')
                | Some m \<Rightarrow> resolve_requests host name_s idx rest (lr(c_str d \<mapsto> m)) w'))"
  using assms by (simp add: resolve_requests.simps(2) Let_def)

lemma resolve_requests_crash:
  assumes "ResolveModule host (c_str d) name_s (scast idx) w = Inl c"
  shows "resolve_requests host name_s idx (d # rest) lr w = Inl c"
  using assms by (simp add: resolve_requests.simps(2) Let_def)

lemma resolve_requests_append:
  "resolve_requests host name_s idx (ds @ ds') lr w =
     (case resolve_requests host name_s idx ds lr w of
        Inl c \<Rightarrow> Inl c
      | Inr (Inl st, w1) \<Rightarrow> Inr (Inl st, w1)
      | Inr (Inr lr1, w1) \<Rightarrow> resolve_requests host name_s idx ds' lr1 w1)"
proof (induction ds arbitrary: lr w)
  case Nil
  then show ?case by simp
next
  case (Cons d ds)
  show ?case
  proof (cases "ResolveModule host (c_str d) name_s (scast idx) w")
    case (Inl c)
    then show ?thesis
      using resolve_requests_crash [OF Inl, of "ds @ ds'" lr] resolve_requests_crash [OF Inl, of ds lr]
      by simp
  next
    case (Inr p)
    obtain retval w' where p: "p = (retval, w')" by (cases p)
    note rm = Inr [unfolded p]
    show ?thesis
    proof (cases "r1 retval = 0")
      case False
      then show ?thesis
        by (simp add: resolve_requests_step [OF rm])
    next
      case True
      show ?thesis
      proof (cases "r0 retval")
        case None
        with True show ?thesis by (simp add: resolve_requests_step [OF rm])
      next
        case (Some canon)
        show ?thesis
        proof (cases "modules (w_ctx w') canon")
          case None
          with True Some show ?thesis by (simp add: resolve_requests_step [OF rm])
        next
          case m: (Some m)
          from True Some m have a:
            "resolve_requests host name_s idx (d # ds @ ds') lr w =
               resolve_requests host name_s idx (ds @ ds') (lr(c_str d \<mapsto> m)) w'"
            by (simp add: resolve_requests_step [OF rm])
          from True Some m have b:
            "resolve_requests host name_s idx (d # ds) lr w =
               resolve_requests host name_s idx ds (lr(c_str d \<mapsto> m)) w'"
            by (simp add: resolve_requests_step [OF rm])
          show ?thesis unfolding append_Cons a b by (rule Cons.IH)
        qed
      qed
    qed
  qed
qed

lemma resolve_requests_go_step:
  assumes "host_steps host"
  shows "resolve_requests host name_s idx ds lr w = Inr (x, w') \<Longrightarrow> go_step w w'"
proof (induction ds arbitrary: lr w)
  case Nil
  then show ?case by (simp add: go_step_refl)
next
  case (Cons d ds)
  show ?case
  proof (cases "ResolveModule host (c_str d) name_s (scast idx) w")
    case (Inl c)
    with Cons.prems show ?thesis using resolve_requests_crash [OF Inl, of ds lr] by simp
  next
    case (Inr p)
    obtain retval w1 where p: "p = (retval, w1)" by (cases p)
    note rm = Inr [unfolded p]
    have s1: "go_step w w1" using ResolveModule_go_step [OF assms rm] .
    show ?thesis
    proof (cases "w' = w1")
      case True
      with s1 show ?thesis by simp
    next
      case False
      with Cons.prems obtain m where
        "resolve_requests host name_s idx ds (lr(c_str d \<mapsto> m)) w1 = Inr (x, w')"
        unfolding resolve_requests_step [OF rm]
        by (auto split: if_splits option.splits)
      from Cons.IH [OF this] s1 show ?thesis by (rule go_step_trans [rotated])
    qed
  qed
qed

lemma LoadModule_compile_failure:
  assumes "CompileModule eng source_s name_s = Inl tc" and "HasCaught tc"
    and "msg (ExceptionError tc) = Some m"
  shows "LoadModule eng host source_s name_s idx w = Inr (1, w\<lparr>stdout := stdout w @ [m]\<rparr>)"
  using assms by (simp add: LoadModule_def printf_s_def)

lemma LoadModule_resolution_stops:
  assumes "CompileModule eng source_s name_s = Inr module"
    and "ModuleRequests module = ds @ d # ds'"
    and "resolve_requests host name_s idx ds Map.empty w = Inr (Inr lr, w1)"
    and "ResolveModule host (c_str d) name_s (scast idx) w1 = Inr (retval, w2)"
  shows "r1 retval \<noteq> 0 \<Longrightarrow> LoadModule eng host source_s name_s idx w = Inr (r1 retval, w2)"
    and "r1 retval = 0 \<Longrightarrow> r0 retval = Some canon \<Longrightarrow> modules (w_ctx w2) canon = None \<Longrightarrow>
         LoadModule eng host source_s name_s idx w = Inr (2, w2)"
proof -
  have rr: "resolve_requests host name_s idx (ModuleRequests module) Map.empty w =
        resolve_requests host name_s idx (d # ds') lr w1"
    unfolding assms(2) resolve_requests_append assms(3) by simp
  show "r1 retval \<noteq> 0 \<Longrightarrow> LoadModule eng host source_s name_s idx w = Inr (r1 retval, w2)"
    using assms(1) by (simp add: LoadModule_def rr resolve_requests_step [OF assms(4)])
  show "r1 retval = 0 \<Longrightarrow> r0 retval = Some canon \<Longrightarrow> modules (w_ctx w2) canon = None \<Longrightarrow>
         LoadModule eng host source_s name_s idx w = Inr (2, w2)"
    using assms(1) by (simp add: LoadModule_def rr resolve_requests_step [OF assms(4)])
qed

lemma FromMaybe_False: "FromMaybe x False \<longleftrightarrow> x = Some True"
  by (cases x) (simp_all add: FromMaybe_def)

lemma LoadModule_after_resolution:
  assumes "CompileModule eng source_s name_s = Inr module"
    and "resolve_requests host name_s idx (ModuleRequests module) Map.empty w = Inr (Inr lr, w1)"
    and "w2 = w1\<lparr>w_ctx := (w_ctx w1)\<lparr>modules := (modules (w_ctx w1))(name_s \<mapsto> module),
                    resolved := (resolved (w_ctx w1))(IdentityHash module \<mapsto> lr)\<rparr>\<rparr>"
  shows "LoadModule eng host source_s name_s idx w =
     (if InstantiateModule eng module (ResolveCallback (w_ctx w2)) \<noteq> Some True then Inr (3, w2)
      else case Module_Evaluate eng module of
             Inl tc \<Rightarrow>
               if \<not> HasCaught tc then Inl AssertionFailed
               else (case msg (ExceptionError tc) of
                       None \<Rightarrow> Inl NullPointer
                     | Some m \<Rightarrow> Inr (4, w2\<lparr>stdout := stdout w2 @ [m]\<rparr>))
           | Inr v \<Rightarrow> Inr (0, w2))"
  using assms(1,2) unfolding assms(3)
  by (simp add: LoadModule_def Let_def FromMaybe_False printf_s_def split: sum.splits option.splits)

lemma LoadModule_go_step:
  assumes "host_steps host" "LoadModule eng host source_s name_s idx w = Inr (st, w')"
  shows "go_step w w'"
proof (cases "CompileModule eng source_s name_s")
  case (Inl tc)
  with assms(2) obtain m where "w' = w\<lparr>stdout := stdout w @ [m]\<rparr>"
    by (auto simp: LoadModule_def printf_s_def split: if_splits option.splits)
  then show ?thesis using go_step_same_package_state [OF go_step_refl, of w' w] by simp
next
  case (Inr module)
  show ?thesis
  proof (cases "resolve_requests host name_s idx (ModuleRequests module) Map.empty w")
    case (Inl c)
    with assms(2) Inr show ?thesis by (simp add: LoadModule_def)
  next
    case rr: (Inr p)
    obtain x w1 where p: "p = (x, w1)" by (cases p)
    from resolve_requests_go_step [OF assms(1) rr [unfolded p]] have s1: "go_step w w1" .
    have "trace w' = trace w1 \<and> nextResolverToken w' = nextResolverToken w1
          \<and> resolverFuncs w' = resolverFuncs w1"
    proof (cases x)
      case (Inl s)
      with assms(2) Inr rr p show ?thesis by (simp add: LoadModule_def)
    next
      case lr: (Inr lr)
      from assms(2) show ?thesis
        unfolding LoadModule_after_resolution [OF Inr rr [unfolded p lr] refl]
        by (auto split: if_splits sum.splits option.splits)
    qed
    with s1 show ?thesis by (auto intro: go_step_same_package_state)
  qed
qed

lemma Engine_LoadModule_unfold:
  "Engine_LoadModule eng host source origin resolve w =
     (case LoadModule eng host (CString source) (CString origin)
             (ucast (nextResolverToken w + 1))
             (w\<lparr>nextResolverToken := nextResolverToken w + 1,
                resolverFuncs := (resolverFuncs w)(nextResolverToken w + 1 \<mapsto> resolve),
                trace := trace w @ [Lock, Store (nextResolverToken w + 1), Unlock]\<rparr>) of
        Inl c \<Rightarrow> Inl c
      | Inr (rtn, w2) \<Rightarrow>
          Inr (scast rtn,
               w2\<lparr>resolverFuncs := (resolverFuncs w2)(nextResolverToken w + 1 := None),
                  trace := trace w2 @ [Lock, Delete (nextResolverToken w + 1), Unlock]\<rparr>))"
  by (simp add: Engine_LoadModule_def Let_def emit_def mutex_Lock_def mutex_Unlock_def
        map_store_def map_delete_def split: sum.splits prod.splits)

lemma ResolveModule_keeps_context:
  assumes "host_keeps_context host" "ResolveModule host spec ref tok w = Inr (retval, w')"
  shows "w_ctx w' = w_ctx w"
proof (cases "map_index (resolverFuncs w) tok")
  case None
  with assms(2) show ?thesis by (auto simp: ResolveModule_no_resolver)
next
  case (Some f)
  let ?w1 = "w\<lparr>trace := trace w @ [Lock, Load tok, Unlock, Invoke tok (c_str spec) (c_str ref)]\<rparr>"
  from assms(2) Some obtain x where "host f (c_str spec) (c_str ref) ?w1 = Inr (x, w')"
    by (auto simp: ResolveModule_resolver split: sum.splits prod.splits)
  with assms(1) have "w_ctx w' = w_ctx ?w1" unfolding host_keeps_context_def by blast
  then show ?thesis by simp
qed

lemma resolve_requests_keeps_context:
  assumes "host_keeps_context host"
    and "resolve_requests host name_s idx ds lr w = Inr (x, w')"
  shows "w_ctx w' = w_ctx w"
  using assms(2)
proof (induction ds arbitrary: lr w)
  case Nil
  then show ?case by simp
next
  case (Cons d ds)
  from Cons.prems obtain retval w1 where
    rm: "ResolveModule host (c_str d) name_s (scast idx) w = Inr (retval, w1)"
    by (auto simp: resolve_requests.simps(2) Let_def split: sum.splits)
  note k = ResolveModule_keeps_context [OF assms(1) rm]
  from Cons.prems have
    "(r1 retval \<noteq> 0 \<and> w' = w1)
     \<or> (\<exists>canon. r0 retval = Some canon \<and> modules (w_ctx w1) canon = None \<and> w' = w1)
     \<or> (\<exists>canon m. r0 retval = Some canon \<and> modules (w_ctx w1) canon = Some m
          \<and> resolve_requests host name_s idx ds (lr(c_str d \<mapsto> m)) w1 = Inr (x, w'))"
    by (auto simp: resolve_requests.simps(2) Let_def rm split: if_splits option.splits)
  then show ?case
    using k Cons.IH by auto
qed

lemma LoadModule_no_resolver_stops:
  assumes "CompileModule eng source_s name_s = Inr module"
    and "ModuleRequests module = ds @ d # ds'"
    and "resolve_requests host name_s idx ds Map.empty w = Inr (Inr lr, w1)"
    and "map_index (resolverFuncs w1) (scast idx) = None"
  shows "LoadModule eng host source_s name_s idx w =
           Inr (1, w1\<lparr>trace := trace w1 @ [Lock, Load (scast idx), Unlock]\<rparr>)"
  using LoadModule_resolution_stops(1)
          [OF assms(1,2,3) ResolveModule_no_resolver [OF assms(4)]]
  by simp

lemma LoadModule_resolver_stops:
  assumes "CompileModule eng source_s name_s = Inr module"
    and "ModuleRequests module = ds @ d # ds'"
    and "resolve_requests host name_s idx ds Map.empty w = Inr (Inr lr, w1)"
    and "map_index (resolverFuncs w1) (scast idx) = Some f"
    and "host f (c_str d) (c_str name_s)
           (w1\<lparr>trace := trace w1 @ [Lock, Load (scast idx), Unlock,
                                      Invoke (scast idx) (c_str d) (c_str name_s)]\<rparr>)
         = Inr ((canon, ret), w2)"
  shows "ucast ret \<noteq> (0 :: c_int) \<Longrightarrow>
           LoadModule eng host source_s name_s idx w = Inr (ucast ret, w2)"
    and "ucast ret = (0 :: c_int) \<Longrightarrow> modules (w_ctx w2) (CString canon) = None \<Longrightarrow>
           LoadModule eng host source_s name_s idx w = Inr (2, w2)"
proof -
  have rm: "ResolveModule host (c_str d) name_s (scast idx) w1 =
              Inr (\<lparr>r0 = Some (CString canon), r1 = ucast ret\<rparr>, w2)"
    using assms(5) by (simp add: ResolveModule_resolver [OF assms(4)] c_str_idem)
  show "ucast ret \<noteq> (0 :: c_int) \<Longrightarrow>
           LoadModule eng host source_s name_s idx w = Inr (ucast ret, w2)"
    using LoadModule_resolution_stops(1) [OF assms(1,2,3) rm] by simp
  show "ucast ret = (0 :: c_int) \<Longrightarrow> modules (w_ctx w2) (CString canon) = None \<Longrightarrow>
           LoadModule eng host source_s name_s idx w = Inr (2, w2)"
    using LoadModule_resolution_stops(2) [OF assms(1,2,3) rm] by simp
qed

lemma LoadModule_evaluation_null_message:
  assumes "CompileModule eng source_s name_s = Inr module"
    and "resolve_requests host name_s idx (ModuleRequests module) Map.empty w = Inr (Inr lr, w1)"
    and "InstantiateModule eng module
           (ResolveCallback ((w_ctx w1)\<lparr>modules := (modules (w_ctx w1))(name_s \<mapsto> module),
                    resolved := (resolved (w_ctx w1))(IdentityHash module \<mapsto> lr)\<rparr>)) = Some True"
    and "Module_Evaluate eng module = Inl tc" "HasCaught tc" "msg (ExceptionError tc) = None"
  shows "LoadModule eng host source_s name_s idx w = Inl NullPointer"
  unfolding LoadModule_after_resolution [OF assms(1,2) refl]
  using assms(3-) by simp
subsection \<open>The life cycle of a resolver token\<close>

lemma sint_narrow:
  assumes "fits_c_int ret"
  shows "sint (ucast ret :: c_int) = sint ret"
proof -
  have "sint (ucast ret :: 32 word) = signed_take_bit 31 (take_bit 32 (uint ret))"
    by (simp add: sint_uint unsigned_ucast_eq)
  also have "\<dots> = signed_take_bit 31 (uint ret)"
    by (simp add: signed_take_bit_take_bit)
  also have "\<dots> = signed_take_bit 31 (signed_take_bit 63 (uint ret))"
    by (simp add: signed_take_bit_signed_take_bit)
  also have "\<dots> = signed_take_bit 31 (sint ret)"
    by (simp add: sint_uint)
  also have "\<dots> = sint ret"
    using assms unfolding fits_c_int_def
    by (simp add: signed_take_bit_int_eq_self)
  finally show ?thesis .
qed

lemma narrow_nonzero:
  assumes "fits_c_int ret" and "ret \<noteq> 0"
  shows "(ucast ret :: c_int) \<noteq> 0"
proof
  assume "(ucast ret :: c_int) = 0"
  then have "sint (ucast ret :: c_int) = 0"
    by simp
  then have "sint ret = 0"
    using sint_narrow [OF assms(1)] by simp
  then show False
    using assms(2) by (simp add: signed_eq_0_iff)
qed


lemma Engine_LoadModule_lifecycle:
  assumes "host_steps host"
    and "Engine_LoadModule eng host source origin resolve w = Inr (st, w')"
  shows "\<exists>rtn w2 es k.
      LoadModule eng host (CString source) (CString origin)
          (ucast (nextResolverToken w + 1))
          (w\<lparr>nextResolverToken := nextResolverToken w + 1,
             resolverFuncs := (resolverFuncs w)(nextResolverToken w + 1 \<mapsto> resolve),
             trace := trace w @ [Lock, Store (nextResolverToken w + 1), Unlock]\<rparr>)
        = Inr (rtn, w2)
    \<and> st = scast rtn
    \<and> w' = w2\<lparr>resolverFuncs := (resolverFuncs w2)(nextResolverToken w + 1 := None),
               trace := trace w2 @ [Lock, Delete (nextResolverToken w + 1), Unlock]\<rparr>
    \<and> trace w2 = trace w @ [Lock, Store (nextResolverToken w + 1), Unlock] @ es
    \<and> stored_tokens es = consecutive (nextResolverToken w + 1) k
    \<and> nextResolverToken w2 = nextResolverToken w + 1 + word_of_nat k
    \<and> lock_run False es = Some False
    \<and> (\<forall>t. resolverFuncs w2 t =
             (if t \<in> set (stored_tokens es) then None
              else if t = nextResolverToken w + 1 then Some resolve
              else resolverFuncs w t))"
proof -
  let ?tok = "nextResolverToken w + 1"
  let ?w1 = "w\<lparr>nextResolverToken := ?tok,
               resolverFuncs := (resolverFuncs w)(?tok \<mapsto> resolve),
               trace := trace w @ [Lock, Store ?tok, Unlock]\<rparr>"
  from assms(2) obtain rtn w2 where
    run: "LoadModule eng host (CString source) (CString origin) (ucast ?tok) ?w1 = Inr (rtn, w2)"
    and st: "st = scast rtn"
    and w': "w' = w2\<lparr>resolverFuncs := (resolverFuncs w2)(?tok := None),
                     trace := trace w2 @ [Lock, Delete ?tok, Unlock]\<rparr>"
    unfolding Engine_LoadModule_unfold by (auto split: sum.splits prod.splits)
  from LoadModule_go_step [OF assms(1) run] obtain es k where
    s: "trace w2 = trace ?w1 @ es"
       "stored_tokens es = consecutive (nextResolverToken ?w1) k"
       "nextResolverToken w2 = nextResolverToken ?w1 + word_of_nat k"
       "lock_run False es = Some False"
       "\<forall>t. resolverFuncs w2 t =
             (if t \<in> set (stored_tokens es) then None else resolverFuncs ?w1 t)"
    unfolding go_step_def by blast
  have "trace w2 = trace w @ [Lock, Store ?tok, Unlock] @ es"
    using s(1) by simp
  moreover have "stored_tokens es = consecutive ?tok k"
    using s(2) by simp
  moreover have "nextResolverToken w2 = ?tok + word_of_nat k"
    using s(3) by simp
  moreover have "\<forall>t. resolverFuncs w2 t =
             (if t \<in> set (stored_tokens es) then None
              else if t = ?tok then Some resolve
              else resolverFuncs w t)"
    using s(5) by simp
  ultimately show ?thesis
    using run st w' s(4) by blast
qed

lemma Engine_LoadModule_go_step:
  assumes "host_steps host"
    and "Engine_LoadModule eng host source origin resolve w = Inr (st, w')"
  shows "go_step w w'"
proof -
  let ?tok = "nextResolverToken w + 1"
  from Engine_LoadModule_lifecycle [OF assms] obtain w2 es k where
    w': "w' = w2\<lparr>resolverFuncs := (resolverFuncs w2)(?tok := None),
                     trace := trace w2 @ [Lock, Delete ?tok, Unlock]\<rparr>"
    and tr: "trace w2 = trace w @ [Lock, Store ?tok, Unlock] @ es"
    and st: "stored_tokens es = consecutive ?tok k"
    and nx: "nextResolverToken w2 = ?tok + word_of_nat k"
    and lk: "lock_run False es = Some False"
    and tb: "\<forall>t. resolverFuncs w2 t =
             (if t \<in> set (stored_tokens es) then None
              else if t = ?tok then Some resolve
              else resolverFuncs w t)"
    by blast
  let ?es = "[Lock, Store ?tok, Unlock] @ es @ [Lock, Delete ?tok, Unlock]"
  have "trace w' = trace w @ ?es"
    using w' tr by simp
  moreover have stored: "stored_tokens ?es = consecutive (nextResolverToken w) (Suc k)"
    using st by (simp add: stored_tokens_append consecutive_Suc)
  moreover have "nextResolverToken w' = nextResolverToken w + word_of_nat (Suc k)"
    using w' nx by simp
  moreover have "lock_run False ?es = Some False"
    using lk by (simp add: lock_run_append)
  moreover have "\<forall>t. resolverFuncs w' t =
      (if t \<in> set (stored_tokens ?es) then None else resolverFuncs w t)"
    using tb w' st by (simp add: stored_tokens_append)
  ultimately show ?thesis
    unfolding go_step_def by blast
qed

lemma counted_go_init: "counted (go_init ctx)"
  unfolding counted_def by (rule exI [of _ 0]) (simp add: go_init_def consecutive_0)

lemma counted_go_step:
  assumes "counted w" "go_step w w'"
  shows "counted w'"
proof -
  from assms(1) obtain n where n: "stored_tokens (trace w) = consecutive 0 n"
    "nextResolverToken w = word_of_nat n"
    unfolding counted_def by blast
  from assms(2) obtain es k where s: "trace w' = trace w @ es"
    "stored_tokens es = consecutive (nextResolverToken w) k"
    "nextResolverToken w' = nextResolverToken w + word_of_nat k"
    unfolding go_step_def by blast
  have "stored_tokens (trace w') = consecutive 0 (n + k)"
    using n s(1,2) by (simp add: stored_tokens_append consecutive_add)
  moreover have "nextResolverToken w' = word_of_nat (n + k)"
    using n(2) s(3) by simp
  ultimately show ?thesis
    unfolding counted_def by blast
qed

lemma sint_word_of_nat: "n < 2 ^ 63 \<Longrightarrow> sint (word_of_nat n :: go_int) = int n"
proof -
  assume "n < 2 ^ 63"
  then have "int n < 2 ^ 63" by (metis of_nat_less_iff of_nat_numeral of_nat_power)
  then have "signed_take_bit 63 (int n) = int n"
    by (intro signed_take_bit_int_eq_self) auto
  then show ?thesis by (simp add: signed_of_nat)
qed

lemma tokens_increasing:
  assumes "n < 2 ^ 63"
  shows "sorted_wrt (\<lambda>a b. sint a < sint b) (consecutive 0 n)"
proof -
  have "sorted_wrt (\<lambda>i j. sint (word_of_nat i :: go_int) < sint (word_of_nat j :: go_int)) [1..<Suc n]"
  proof (rule sorted_wrt_mono_rel [of _ "(<)"])
    fix i j assume "i \<in> set [1..<Suc n]" "j \<in> set [1..<Suc n]" "i < j"
    with assms have "i < 2 ^ 63" "j < 2 ^ 63" by auto
    with \<open>i < j\<close> show "sint (word_of_nat i :: go_int) < sint (word_of_nat j :: go_int)"
      by (simp add: sint_word_of_nat)
  qed (rule sorted_wrt_upt)
  then show ?thesis by (simp add: consecutive_def sorted_wrt_map)
qed

lemma counted_increasing:
  assumes "counted w" "length (stored_tokens (trace w)) < 2 ^ 63"
  shows "sorted_wrt (\<lambda>a b. sint a < sint b) (stored_tokens (trace w))"
proof -
  from assms(1) obtain n where n: "stored_tokens (trace w) = consecutive 0 n"
    unfolding counted_def by blast
  with assms(2) have "n < 2 ^ 63" by (simp add: length_consecutive)
  from tokens_increasing [OF this] n show ?thesis by simp
qed

lemma host_stepsD:
  "host_steps host \<Longrightarrow> host f moduleName referrerName w = Inr (x, w') \<Longrightarrow> go_step w w'"
  unfolding host_steps_def by blast

lemma host_steps_plain_host: "host_steps plain_host"
  unfolding host_steps_def plain_host_def
  by (auto simp: go_step_refl split: if_splits)

lemma host_steps_example_host: "host_steps example_host"
  unfolding host_steps_def
proof (intro allI impI)
  fix f moduleName referrerName w x w'
  assume a: "example_host f moduleName referrerName w = Inr (x, w')"
  show "go_step w w'"
  proof (cases "f = 3 \<and> moduleName = ''b.js''")
    case True
    with a obtain st where
      "Engine_LoadModule example_engine plain_host ''export const b = 1;'' ''b.js'' (Some 2) w
         = Inr (st, w')"
      by (auto simp: example_host_def split: if_splits sum.splits)
    from Engine_LoadModule_go_step [OF host_steps_plain_host this] show ?thesis .
  next
    case False
    with a have "w' = w \<or> plain_host f moduleName referrerName w = Inr (x, w')"
      by (auto simp: example_host_def split: if_splits)
    then show ?thesis
      by (auto simp: go_step_refl dest: host_stepsD [OF host_steps_plain_host])
  qed
qed
subsection \<open>The statuses of a load\<close>

lemmas load_defs = LoadModule_def Engine_LoadModule_def ResolveModule_def resolve_requests.simps(2)
  emit_def mutex_Lock_def mutex_Unlock_def map_load_def map_store_def map_delete_def map_index_def
  printf_s_def GoString_def CString_def c_str_def Let_def example_engine_def example_module_def
  thrown_def failing_resolver_def example_resolver_def plain_host_def example_host_def go_init_def
  world_with_resolver_def ctx_with_dep_def NewContext_def ExceptionError_def
  CopyString_Utf8Value_def CopyString_def Utf8Value_length_def put_cstr_def put_int_def
  new_ostringstream_def dec_int_def dec_nat.simps FromMaybe_def ResolveCallback_def

lemma nested_load_runs:
  "LoadModule example_engine example_host ''import \"b.js\"; import \"c.js\";'' ''a.js'' 1
     (world_with_resolver NewContext (Some 3)) = Inr (7, world_after_nested_load)"
  by (simp add: load_defs world_after_nested_load_def world_after_b_def fun_upd_idem)

lemma first_request_resolved:
  "resolve_requests example_host ''a.js'' 1 [''b.js''] Map.empty
     (world_with_resolver NewContext (Some 3))
   = Inr (Inr [''b.js'' \<mapsto> example_module ''export const b = 1;'' ''b.js''], world_after_b)"
  by (simp add: load_defs world_after_b_def fun_upd_idem)

lemma second_request_fails:
  "example_host 3 (c_str ''c.js'') (c_str ''a.js'')
     (world_after_b\<lparr>trace := trace world_after_b
                       @ [Lock, Load (scast (1 :: c_int)), Unlock,
                          Invoke (scast (1 :: c_int)) (c_str ''c.js'') (c_str ''a.js'')]\<rparr>)
   = Inr (([], 7), world_after_nested_load)"
  by (simp add: load_defs world_after_nested_load_def world_after_b_def)

lemma host_keeps_context_plain_host: "host_keeps_context plain_host"
  unfolding host_keeps_context_def plain_host_def by auto

lemma compiles_example:
  "source_text \<noteq> ''export'' \<Longrightarrow>
   CompileModule example_engine source_text name = Inr (example_module source_text name)"
  by (simp add: example_engine_def)

lemma no_request_resolved:
  "resolve_requests host name_s idx [] Map.empty w = Inr (Inr Map.empty, w)"
  by simp

lemma registered_resolver:
  "map_index (resolverFuncs (world_with_resolver ctx resolve)) (scast (1 :: c_int)) = resolve"
  by (simp add: world_with_resolver_def map_index_def)

lemma fits_c_int_small: "fits_c_int 5" "fits_c_int 7"
  by (simp_all add: fits_c_int_def)

lemma dep_request_resolved:
  "resolve_requests plain_host ''a.js'' 1 [''dep.js''] Map.empty
     (world_with_resolver ctx_with_dep (Some 1))
   = Inr (Inr [''dep.js'' \<mapsto> example_module ''export const x = 1;'' ''dep.js''],
          (world_with_resolver ctx_with_dep (Some 1))
            \<lparr>trace := [Lock, Store 1, Unlock, Lock, Load 1, Unlock,
                       Invoke 1 ''dep.js'' ''a.js'']\<rparr>)"
  by (simp add: load_defs)

text \<open>
  Claim C10. When the table has no resolver under the token (no entry, or a \<^verbatim>\<open>nil\<close>
  entry), \<^verbatim>\<open>ResolveModule\<close> returns a null name and status 1, whatever the functions of
  the host are, and the world gains the locked read of the table and nothing else: no
  function of the host is invoked. A load under such a token that reaches the resolution
  of a dependency (the module compiled and requests at least one specifier) therefore
  returns 1 on the first request, with the context as it was.
\<close>
theorem missing_resolver_aborts_load:
  assumes "map_index (resolverFuncs w) tok = None"
  shows "ResolveModule host spec ref tok w =
           Inr (\<lparr>r0 = None, r1 = 1\<rparr>, w\<lparr>trace := trace w @ [Lock, Load tok, Unlock]\<rparr>)
         \<and> map_sum id (invocations \<circ> trace \<circ> snd) (ResolveModule host spec ref tok w) =
             Inr (invocations (trace w))
         \<and> (\<forall>m. CompileModule eng source_s name_s = Inr m \<longrightarrow> ModuleRequests m \<noteq> [] \<longrightarrow>
               tok = scast idx \<longrightarrow>
               LoadModule eng host source_s name_s idx w =
                 Inr (1, w\<lparr>trace := trace w @ [Lock, Load tok, Unlock]\<rparr>))"
proof -
  have rm: "ResolveModule host spec ref tok w =
           Inr (\<lparr>r0 = None, r1 = 1\<rparr>, w\<lparr>trace := trace w @ [Lock, Load tok, Unlock]\<rparr>)"
    using assms by (rule ResolveModule_no_resolver)
  have "LoadModule eng host source_s name_s idx w =
          Inr (1, w\<lparr>trace := trace w @ [Lock, Load tok, Unlock]\<rparr>)"
    if "CompileModule eng source_s name_s = Inr m" "ModuleRequests m \<noteq> []" "tok = scast idx" for m
  proof -
    from that(2) obtain d ds where req: "ModuleRequests m = [] @ d # ds"
      by (cases "ModuleRequests m") auto
    have pre: "resolve_requests host name_s idx [] Map.empty w = Inr (Inr Map.empty, w)"
      by simp
    from assms that(3) have "map_index (resolverFuncs w) (scast idx) = None"
      by simp
    from LoadModule_no_resolver_stops [OF that(1) req pre this] that(3)
    show ?thesis by simp
  qed
  with rm show ?thesis by (simp add: invocations_append)
qed

text \<open>C10 for token 2 while only token 1 is registered.\<close>
theorem missing_resolver_aborts_load_witness:
  "map_index (resolverFuncs (world_with_resolver ctx_with_dep (Some 1))) 2 = None
   \<and> ResolveModule example_host ''dep.js'' ''a.js'' 2 (world_with_resolver ctx_with_dep (Some 1)) =
       Inr (\<lparr>r0 = None, r1 = 1\<rparr>,
            \<lparr>w_ctx = ctx_with_dep, nextResolverToken = 1, resolverFuncs = [1 \<mapsto> Some 1],
             trace = [Lock, Store 1, Unlock, Lock, Load 2, Unlock], stdout = []\<rparr>)
   \<and> LoadModule example_engine example_host ''import \"dep.js\";'' ''a.js'' 2
         (world_with_resolver ctx_with_dep (Some 1)) =
       Inr (1, \<lparr>w_ctx = ctx_with_dep, nextResolverToken = 1, resolverFuncs = [1 \<mapsto> Some 1],
                trace = [Lock, Store 1, Unlock, Lock, Load 2, Unlock], stdout = []\<rparr>)"
proof -
  have h: "map_index (resolverFuncs (world_with_resolver ctx_with_dep (Some 1))) 2 = None"
    by (simp add: world_with_resolver_def map_index_def)
  have m: "CompileModule example_engine ''import \"dep.js\";'' ''a.js'' =
             Inr (example_module ''import \"dep.js\";'' ''a.js'')"
    by (simp add: compiles_example)
  have r: "ModuleRequests (example_module ''import \"dep.js\";'' ''a.js'') \<noteq> []"
    by (simp add: example_module_def)
  from missing_resolver_aborts_load [OF h, of example_host "''dep.js''" "''a.js''" example_engine
      "''import \"dep.js\";''" "''a.js''" 2] h m r
  show ?thesis by (simp add: world_with_resolver_def)
qed

text \<open>
  Claim C3 says that a load with a dependency that does not resolve returns 1 or 2 and
  leaves the registry unchanged. A resolver that fails with status 5 makes the load
  return 5. The resolver that loads \<^verbatim>\<open>b.js\<close> through the bridge and then fails on
  \<^verbatim>\<open>c.js\<close> with status 7 makes the load return 7 with \<^verbatim>\<open>b.js\<close> in the registry. And a
  resolver that answers with the non-zero status \<open>2^32\<close> lets the load return 0 and
  register the module.
\<close>
theorem unresolved_dependency_outcomes:
  "map_sum id fst
     (LoadModule example_engine example_host ''import \"dep.js\";'' ''a.js'' 1
        (world_with_resolver NewContext (Some 2))) = Inr 5
   \<and> map_sum id (apsnd (dom \<circ> modules \<circ> w_ctx))
       (LoadModule example_engine example_host ''import \"b.js\"; import \"c.js\";'' ''a.js'' 1
          (world_with_resolver NewContext (Some 3))) = Inr (7, {''b.js''})
   \<and> map_sum id (apsnd (dom \<circ> modules \<circ> w_ctx))
       (LoadModule example_engine example_host ''import \"dep.js\";'' ''a.js'' 1
          (world_with_resolver ctx_with_dep (Some 4))) = Inr (0, {''a.js'', ''dep.js''})"
  by (simp add: load_defs)

text \<open>
  Claim C3, amended. Take a load whose module compiled and whose dependency \<open>d\<close> is the
  first that does not resolve, the requests before it having left the world \<open>w1\<close>. If no
  resolver is registered under the token, the load returns 1. If the resolver answers
  with a non-zero status that fits a C int, the load returns that status, which is not
  0. If it answers with status 0 and a name that the registry does not know once the
  resolver has returned, the load returns 2. In each case the world is the one the
  resolver left: the load itself adds nothing to the registry, and in particular not
  the dependent module. When the functions of the host leave the context alone, the
  context is therefore the one the load started with.
\<close>
theorem unresolved_dependency_leaves_registry:
  assumes "CompileModule eng source_s name_s = Inr module"
    and "ModuleRequests module = ds @ d # ds'"
    and "resolve_requests host name_s idx ds Map.empty w = Inr (Inr lr, w1)"
  shows "(map_index (resolverFuncs w1) (scast idx) = None \<longrightarrow>
            LoadModule eng host source_s name_s idx w =
              Inr (1, w1\<lparr>trace := trace w1 @ [Lock, Load (scast idx), Unlock]\<rparr>))
       \<and> (\<forall>f canon ret w2.
            map_index (resolverFuncs w1) (scast idx) = Some f \<longrightarrow>
            host f (c_str d) (c_str name_s)
               (w1\<lparr>trace := trace w1 @ [Lock, Load (scast idx), Unlock,
                                          Invoke (scast idx) (c_str d) (c_str name_s)]\<rparr>)
              = Inr ((canon, ret), w2) \<longrightarrow>
              (ret \<noteq> 0 \<longrightarrow> fits_c_int ret \<longrightarrow>
                 (\<exists>st. LoadModule eng host source_s name_s idx w = Inr (st, w2)
                       \<and> st \<noteq> 0 \<and> sint st = sint ret))
            \<and> (ret = 0 \<longrightarrow> modules (w_ctx w2) (CString canon) = None \<longrightarrow>
                 LoadModule eng host source_s name_s idx w = Inr (2, w2))
            \<and> (host_keeps_context host \<longrightarrow> w_ctx w2 = w_ctx w))
       \<and> (host_keeps_context host \<longrightarrow> w_ctx w1 = w_ctx w)"
proof (intro conjI allI impI)
  assume "map_index (resolverFuncs w1) (scast idx) = None"
  from LoadModule_no_resolver_stops [OF assms this]
  show "LoadModule eng host source_s name_s idx w =
              Inr (1, w1\<lparr>trace := trace w1 @ [Lock, Load (scast idx), Unlock]\<rparr>)" .
next
  fix f canon ret w2
  assume a: "map_index (resolverFuncs w1) (scast idx) = Some f"
    "host f (c_str d) (c_str name_s)
               (w1\<lparr>trace := trace w1 @ [Lock, Load (scast idx), Unlock,
                                          Invoke (scast idx) (c_str d) (c_str name_s)]\<rparr>)
              = Inr ((canon, ret), w2)"
  {
    assume "ret \<noteq> 0" "fits_c_int ret"
    then have "(ucast ret :: c_int) \<noteq> 0" "sint (ucast ret :: c_int) = sint ret"
      by (simp_all add: narrow_nonzero sint_narrow)
    with LoadModule_resolver_stops(1) [OF assms a]
    show "\<exists>st. LoadModule eng host source_s name_s idx w = Inr (st, w2)
                       \<and> st \<noteq> 0 \<and> sint st = sint ret"
      by blast
  }
  {
    assume "ret = 0" "modules (w_ctx w2) (CString canon) = None"
    with LoadModule_resolver_stops(2) [OF assms a]
    show "LoadModule eng host source_s name_s idx w = Inr (2, w2)"
      by simp
  }
  {
    assume k: "host_keeps_context host"
    from a(2) k have "w_ctx w2 = w_ctx w1"
      unfolding host_keeps_context_def by fastforce
    with resolve_requests_keeps_context [OF k assms(3)]
    show "w_ctx w2 = w_ctx w" by simp
  }
next
  assume "host_keeps_context host"
  from resolve_requests_keeps_context [OF this assms(3)]
  show "w_ctx w1 = w_ctx w" .
qed

text \<open>
  C3 for a resolver that fails with status 5, for a resolver that answers with a name
  the registry does not know, and for the resolver that loads \<^verbatim>\<open>b.js\<close> through the
  bridge and fails on \<^verbatim>\<open>c.js\<close> with status 7.
\<close>
theorem unresolved_dependency_leaves_registry_witness:
  "(\<exists>st. LoadModule example_engine plain_host ''import \"dep.js\";'' ''a.js'' 1
            (world_with_resolver NewContext (Some 2))
          = Inr (st, \<lparr>w_ctx = NewContext, nextResolverToken = 1, resolverFuncs = [1 \<mapsto> Some 2],
                      trace = [Lock, Store 1, Unlock, Lock, Load 1, Unlock,
                               Invoke 1 ''dep.js'' ''a.js''],
                      stdout = []\<rparr>)
        \<and> st \<noteq> 0 \<and> sint st = 5)
   \<and> LoadModule example_engine plain_host ''import \"dep.js\";'' ''a.js'' 1
        (world_with_resolver NewContext (Some 1))
      = Inr (2, \<lparr>w_ctx = NewContext, nextResolverToken = 1, resolverFuncs = [1 \<mapsto> Some 1],
                  trace = [Lock, Store 1, Unlock, Lock, Load 1, Unlock,
                           Invoke 1 ''dep.js'' ''a.js''],
                  stdout = []\<rparr>)
   \<and> (\<exists>st. LoadModule example_engine example_host ''import \"b.js\"; import \"c.js\";'' ''a.js'' 1
            (world_with_resolver NewContext (Some 3))
          = Inr (st, world_after_nested_load)
        \<and> st \<noteq> 0 \<and> sint st = 7)
   \<and> host_keeps_context plain_host"
proof -
  let ?dep = "''import \"dep.js\";''"
  have req: "ModuleRequests (example_module ?dep ''a.js'') = [] @ ''dep.js'' # []"
    by (simp add: example_module_def)
  let ?w2 = "\<lambda>f. \<lparr>w_ctx = NewContext, nextResolverToken = 1, resolverFuncs = [1 \<mapsto> Some f],
                  trace = [Lock, Store 1, Unlock, Lock, Load 1, Unlock,
                           Invoke 1 ''dep.js'' ''a.js''],
                  stdout = []\<rparr>"
  have call: "plain_host f (c_str ''dep.js'') (c_str ''a.js'')
      ((world_with_resolver NewContext (Some f))
         \<lparr>trace := trace (world_with_resolver NewContext (Some f))
                    @ [Lock, Load (scast (1 :: c_int)), Unlock,
                       Invoke (scast (1 :: c_int)) (c_str ''dep.js'') (c_str ''a.js'')]\<rparr>)
      = Inr ((if f = 1 then (''dep.js'', 0) else if f = 4 then (''dep.js'', 4294967296) else ([], 5)),
             ?w2 f)" for f
    by (simp add: plain_host_def example_resolver_def failing_resolver_def
          world_with_resolver_def c_str_def)
  have call2: "plain_host 2 (c_str ''dep.js'') (c_str ''a.js'')
      ((world_with_resolver NewContext (Some 2))
         \<lparr>trace := trace (world_with_resolver NewContext (Some 2))
                    @ [Lock, Load (scast (1 :: c_int)), Unlock,
                       Invoke (scast (1 :: c_int)) (c_str ''dep.js'') (c_str ''a.js'')]\<rparr>)
      = Inr (([], 5), ?w2 2)"
    using call [of 2] by simp
  have call1: "plain_host 1 (c_str ''dep.js'') (c_str ''a.js'')
      ((world_with_resolver NewContext (Some 1))
         \<lparr>trace := trace (world_with_resolver NewContext (Some 1))
                    @ [Lock, Load (scast (1 :: c_int)), Unlock,
                       Invoke (scast (1 :: c_int)) (c_str ''dep.js'') (c_str ''a.js'')]\<rparr>)
      = Inr ((''dep.js'', 0), ?w2 1)"
    using call [of 1] by simp
  have cd: "CompileModule example_engine ?dep ''a.js'' = Inr (example_module ?dep ''a.js'')"
    by (rule compiles_example) simp
  note a = unresolved_dependency_leaves_registry
      [where host = plain_host and idx = 1 and w = "world_with_resolver NewContext (Some 2)",
       OF cd req no_request_resolved, THEN conjunct2, THEN conjunct1, rule_format,
       OF registered_resolver call2]
  note b = unresolved_dependency_leaves_registry
      [where host = plain_host and idx = 1 and w = "world_with_resolver NewContext (Some 1)",
       OF cd req no_request_resolved, THEN conjunct2, THEN conjunct1, rule_format,
       OF registered_resolver call1]
  have cb: "CompileModule example_engine ''import \"b.js\"; import \"c.js\";'' ''a.js''
              = Inr (example_module ''import \"b.js\"; import \"c.js\";'' ''a.js'')"
    by (rule compiles_example) simp
  have req2: "ModuleRequests (example_module ''import \"b.js\"; import \"c.js\";'' ''a.js'')
                = [''b.js''] @ ''c.js'' # []"
    by (simp add: example_module_def)
  have reg3: "map_index (resolverFuncs world_after_b) (scast (1 :: c_int)) = Some 3"
    by (simp add: world_after_b_def map_index_def)
  note c = unresolved_dependency_leaves_registry
      [OF cb req2 first_request_resolved, THEN conjunct2, THEN conjunct1,
       rule_format, OF reg3 second_request_fails]
  have "\<exists>st. LoadModule example_engine plain_host ?dep ''a.js'' 1
            (world_with_resolver NewContext (Some 2)) = Inr (st, ?w2 2)
        \<and> st \<noteq> 0 \<and> sint st = 5"
    using a [THEN conjunct1] fits_c_int_small by simp
  moreover have "LoadModule example_engine plain_host ?dep ''a.js'' 1
        (world_with_resolver NewContext (Some 1)) = Inr (2, ?w2 1)"
    using b [THEN conjunct2, THEN conjunct1] by (simp add: CString_def c_str_def NewContext_def)
  moreover have "\<exists>st. LoadModule example_engine example_host
            ''import \"b.js\"; import \"c.js\";'' ''a.js'' 1
            (world_with_resolver NewContext (Some 3)) = Inr (st, world_after_nested_load)
        \<and> st \<noteq> 0 \<and> sint st = 7"
    using c [THEN conjunct1] fits_c_int_small by simp
  ultimately show ?thesis
    using host_keeps_context_plain_host by blast
qed

text \<open>
  Claim C2 says that the status is 1 whenever the resolver reports a failure, that a
  compile failure yields an error value, and that the status is 4 on every evaluation
  failure. A resolver that fails with status 5 makes the load return 5. A module that
  does not compile makes it return 1, the diagnostic being printed. A module that throws
  the empty string ends the process: the message is null and is handed to \<^verbatim>\<open>printf\<close>.
  And a resolver that answers with the status \<open>2^32\<close>, which is 0 as a C \<^verbatim>\<open>int\<close>, does
  not fail the load at all.
\<close>
theorem LoadModule_status_outside_table:
  "map_sum id fst
     (Engine_LoadModule example_engine example_host ''import \"dep.js\";'' ''a.js'' (Some 2)
        (go_init NewContext)) = Inr 5
   \<and> map_sum id (apsnd stdout)
       (Engine_LoadModule example_engine example_host ''export'' ''a.js'' (Some 1)
          (go_init NewContext)) = Inr (1, [''SyntaxError: Unexpected end of input''])
   \<and> Engine_LoadModule example_engine example_host ''throw \"\";'' ''a.js'' (Some 1)
         (go_init NewContext) = Inl NullPointer
   \<and> map_sum id fst
       (Engine_LoadModule example_engine example_host ''import \"dep.js\";'' ''a.js'' (Some 4)
          (go_init ctx_with_dep)) = Inr 0"
  by (simp add: load_defs)

text \<open>
  Claim C2, amended. \<^verbatim>\<open>LoadModule\<close> returns an integer status and no error value. When
  the module does not compile the status is 1 and the diagnostic of the engine is
  printed. At the first dependency that does not resolve, the requests before it having
  left the world \<open>w1\<close>, the status is 1 when no resolver is registered under the token,
  the status of the resolver when that is non-zero and fits a C int, and 2 when the
  resolver answers with status 0 and a name unknown to the registry; the world is the
  one the resolver left, so nothing is asked again. When every dependency resolved, the
  module is registered, and the status is 3 when instantiation fails, 4 when evaluation
  fails, its diagnostic being printed, and 0 otherwise.
\<close>
theorem LoadModule_status_codes:
  "(\<forall>tc m. CompileModule eng source_s name_s = Inl tc \<longrightarrow> HasCaught tc \<longrightarrow>
        msg (ExceptionError tc) = Some m \<longrightarrow>
        LoadModule eng host source_s name_s idx w = Inr (1, w\<lparr>stdout := stdout w @ [m]\<rparr>))
   \<and> (\<forall>module ds d ds' lr w1.
        CompileModule eng source_s name_s = Inr module \<longrightarrow>
        ModuleRequests module = ds @ d # ds' \<longrightarrow>
        resolve_requests host name_s idx ds Map.empty w = Inr (Inr lr, w1) \<longrightarrow>
          (map_index (resolverFuncs w1) (scast idx) = None \<longrightarrow>
             LoadModule eng host source_s name_s idx w =
               Inr (1, w1\<lparr>trace := trace w1 @ [Lock, Load (scast idx), Unlock]\<rparr>))
        \<and> (\<forall>f canon ret w2.
             map_index (resolverFuncs w1) (scast idx) = Some f \<longrightarrow>
             host f (c_str d) (c_str name_s)
                (w1\<lparr>trace := trace w1 @ [Lock, Load (scast idx), Unlock,
                                           Invoke (scast idx) (c_str d) (c_str name_s)]\<rparr>)
               = Inr ((canon, ret), w2) \<longrightarrow>
               (ret \<noteq> 0 \<longrightarrow> fits_c_int ret \<longrightarrow>
                  LoadModule eng host source_s name_s idx w = Inr (ucast ret, w2)
                  \<and> sint (ucast ret :: c_int) = sint ret)
             \<and> (ret = 0 \<longrightarrow> modules (w_ctx w2) (CString canon) = None \<longrightarrow>
                  LoadModule eng host source_s name_s idx w = Inr (2, w2))))
   \<and> (\<forall>module lr w1 w2.
        CompileModule eng source_s name_s = Inr module \<longrightarrow>
        resolve_requests host name_s idx (ModuleRequests module) Map.empty w
          = Inr (Inr lr, w1) \<longrightarrow>
        w2 = w1\<lparr>w_ctx := (w_ctx w1)\<lparr>modules := (modules (w_ctx w1))(name_s \<mapsto> module),
                   resolved := (resolved (w_ctx w1))(IdentityHash module \<mapsto> lr)\<rparr>\<rparr> \<longrightarrow>
          (InstantiateModule eng module (ResolveCallback (w_ctx w2)) \<noteq> Some True \<longrightarrow>
             LoadModule eng host source_s name_s idx w = Inr (3, w2))
        \<and> (InstantiateModule eng module (ResolveCallback (w_ctx w2)) = Some True \<longrightarrow>
             (\<forall>tc m. Module_Evaluate eng module = Inl tc \<longrightarrow> HasCaught tc \<longrightarrow>
                 msg (ExceptionError tc) = Some m \<longrightarrow>
                 LoadModule eng host source_s name_s idx w =
                   Inr (4, w2\<lparr>stdout := stdout w2 @ [m]\<rparr>))
           \<and> (\<forall>v. Module_Evaluate eng module = Inr v \<longrightarrow>
                 LoadModule eng host source_s name_s idx w = Inr (0, w2))))"
proof (intro conjI allI impI)
  fix tc m
  assume "CompileModule eng source_s name_s = Inl tc" "HasCaught tc"
    "msg (ExceptionError tc) = Some m"
  then show "LoadModule eng host source_s name_s idx w = Inr (1, w\<lparr>stdout := stdout w @ [m]\<rparr>)"
    by (rule LoadModule_compile_failure)
next
  fix module ds d ds' lr w1
  assume a: "CompileModule eng source_s name_s = Inr module"
    "ModuleRequests module = ds @ d # ds'"
    "resolve_requests host name_s idx ds Map.empty w = Inr (Inr lr, w1)"
  {
    assume "map_index (resolverFuncs w1) (scast idx) = None"
    from LoadModule_no_resolver_stops [OF a this]
    show "LoadModule eng host source_s name_s idx w =
               Inr (1, w1\<lparr>trace := trace w1 @ [Lock, Load (scast idx), Unlock]\<rparr>)" .
  }
  fix f canon ret w2
  assume b: "map_index (resolverFuncs w1) (scast idx) = Some f"
    "host f (c_str d) (c_str name_s)
                (w1\<lparr>trace := trace w1 @ [Lock, Load (scast idx), Unlock,
                                           Invoke (scast idx) (c_str d) (c_str name_s)]\<rparr>)
               = Inr ((canon, ret), w2)"
  {
    assume r: "ret \<noteq> 0" "fits_c_int ret"
    then have "(ucast ret :: c_int) \<noteq> 0"
      by (simp add: narrow_nonzero)
    from LoadModule_resolver_stops(1) [OF a b this]
    show "LoadModule eng host source_s name_s idx w = Inr (ucast ret, w2)" .
    from r show "sint (ucast ret :: c_int) = sint ret"
      by (simp add: sint_narrow)
  }
  {
    assume "ret = 0" "modules (w_ctx w2) (CString canon) = None"
    with LoadModule_resolver_stops(2) [OF a b]
    show "LoadModule eng host source_s name_s idx w = Inr (2, w2)"
      by simp
  }
next
  fix module lr w1 w2
  assume a: "CompileModule eng source_s name_s = Inr module"
    "resolve_requests host name_s idx (ModuleRequests module) Map.empty w = Inr (Inr lr, w1)"
    "w2 = w1\<lparr>w_ctx := (w_ctx w1)\<lparr>modules := (modules (w_ctx w1))(name_s \<mapsto> module),
                   resolved := (resolved (w_ctx w1))(IdentityHash module \<mapsto> lr)\<rparr>\<rparr>"
  note unfold = LoadModule_after_resolution [OF a]
  {
    assume "InstantiateModule eng module (ResolveCallback (w_ctx w2)) \<noteq> Some True"
    then show "LoadModule eng host source_s name_s idx w = Inr (3, w2)"
      unfolding unfold by simp
  }
  assume i: "InstantiateModule eng module (ResolveCallback (w_ctx w2)) = Some True"
  {
    fix tc m
    assume "Module_Evaluate eng module = Inl tc" "HasCaught tc" "msg (ExceptionError tc) = Some m"
    with i show "LoadModule eng host source_s name_s idx w = Inr (4, w2\<lparr>stdout := stdout w2 @ [m]\<rparr>)"
      unfolding unfold by simp
  }
  {
    fix v
    assume "Module_Evaluate eng module = Inr v"
    with i show "LoadModule eng host source_s name_s idx w = Inr (0, w2)"
      unfolding unfold by simp
  }
qed

text \<open>
  C2 on the small engine, one load for each status: a module that does not compile, a
  resolver that fails with status 5, a resolver that answers with a name the registry
  does not know, a module that does not instantiate, a module that throws 1, and a
  module that loads.
\<close>
theorem LoadModule_status_codes_witness:
  "map_sum id (apsnd stdout)
     (LoadModule example_engine plain_host ''export'' ''a.js'' 1
        (world_with_resolver NewContext (Some 1)))
     = Inr (1, [''SyntaxError: Unexpected end of input''])
   \<and> map_sum id (apsnd trace)
       (LoadModule example_engine plain_host ''import \"dep.js\";'' ''a.js'' 1
          (world_with_resolver NewContext (Some 2)))
       = Inr (5, [Lock, Store 1, Unlock, Lock, Load 1, Unlock, Invoke 1 ''dep.js'' ''a.js''])
   \<and> map_sum id (apsnd trace)
       (LoadModule example_engine plain_host ''import \"dep.js\";'' ''a.js'' 1
          (world_with_resolver NewContext (Some 1)))
       = Inr (2, [Lock, Store 1, Unlock, Lock, Load 1, Unlock, Invoke 1 ''dep.js'' ''a.js''])
   \<and> map_sum id (apsnd stdout)
       (LoadModule example_engine plain_host ''import {nope} from \"dep.js\";'' ''a.js'' 1
          (world_with_resolver ctx_with_dep (Some 1)))
       = Inr (3, [])
   \<and> map_sum id (apsnd stdout)
       (LoadModule example_engine plain_host ''throw 1;'' ''a.js'' 1
          (world_with_resolver ctx_with_dep (Some 1)))
       = Inr (4, [''1''])
   \<and> map_sum id (apsnd (dom \<circ> modules \<circ> w_ctx))
       (LoadModule example_engine plain_host ''import \"dep.js\";'' ''a.js'' 1
          (world_with_resolver ctx_with_dep (Some 1)))
       = Inr (0, {''a.js'', ''dep.js''})"
proof -
  let ?dep = "''import \"dep.js\";''"
  let ?nope = "''import {nope} from \"dep.js\";''"
  let ?w = "\<lambda>f. world_with_resolver NewContext (Some f)"
  let ?wd = "world_with_resolver ctx_with_dep (Some 1)"
  have c0: "CompileModule example_engine ''export'' ''a.js''
              = Inl (thrown ''SyntaxError: Unexpected end of input'' ''a.js'' 1 6 None)"
    by (simp add: example_engine_def)
  have m0: "msg (ExceptionError (thrown ''SyntaxError: Unexpected end of input'' ''a.js'' 1 6 None))
              = Some ''SyntaxError: Unexpected end of input''"
    by (simp add: load_defs)
  have h0: "HasCaught (thrown ''SyntaxError: Unexpected end of input'' ''a.js'' 1 6 None)"
    by (simp add: thrown_def)
  note s1 = LoadModule_status_codes
      [where host = plain_host and idx = 1 and w = "?w 1", THEN conjunct1, rule_format,
       OF c0 h0 m0]
  have cd: "CompileModule example_engine ?dep ''a.js'' = Inr (example_module ?dep ''a.js'')"
    by (rule compiles_example) simp
  have req: "ModuleRequests (example_module ?dep ''a.js'') = [] @ ''dep.js'' # []"
    by (simp add: example_module_def)
  have call: "plain_host f (c_str ''dep.js'') (c_str ''a.js'')
      ((?w f)\<lparr>trace := trace (?w f)
                    @ [Lock, Load (scast (1 :: c_int)), Unlock,
                       Invoke (scast (1 :: c_int)) (c_str ''dep.js'') (c_str ''a.js'')]\<rparr>)
      = Inr ((if f = 1 then (''dep.js'', 0) else if f = 4 then (''dep.js'', 4294967296) else ([], 5)),
             (?w f)\<lparr>trace := [Lock, Store 1, Unlock, Lock, Load 1, Unlock,
                                 Invoke 1 ''dep.js'' ''a.js'']\<rparr>)" for f
    by (simp add: plain_host_def example_resolver_def failing_resolver_def
          world_with_resolver_def c_str_def)
  have call2: "plain_host 2 (c_str ''dep.js'') (c_str ''a.js'')
      ((?w 2)\<lparr>trace := trace (?w 2)
                    @ [Lock, Load (scast (1 :: c_int)), Unlock,
                       Invoke (scast (1 :: c_int)) (c_str ''dep.js'') (c_str ''a.js'')]\<rparr>)
      = Inr (([], 5), (?w 2)\<lparr>trace := [Lock, Store 1, Unlock, Lock, Load 1, Unlock,
                                 Invoke 1 ''dep.js'' ''a.js'']\<rparr>)"
    using call [of 2] by simp
  have call1: "plain_host 1 (c_str ''dep.js'') (c_str ''a.js'')
      ((?w 1)\<lparr>trace := trace (?w 1)
                    @ [Lock, Load (scast (1 :: c_int)), Unlock,
                       Invoke (scast (1 :: c_int)) (c_str ''dep.js'') (c_str ''a.js'')]\<rparr>)
      = Inr ((''dep.js'', 0), (?w 1)\<lparr>trace := [Lock, Store 1, Unlock, Lock, Load 1, Unlock,
                                 Invoke 1 ''dep.js'' ''a.js'']\<rparr>)"
    using call [of 1] by simp
  note s5 = LoadModule_status_codes
      [where host = plain_host and idx = 1 and w = "?w 2", THEN conjunct2, THEN conjunct1,
       rule_format, OF cd req no_request_resolved, THEN conjunct2, rule_format,
       OF registered_resolver call2, THEN conjunct1, rule_format]
  note s2 = LoadModule_status_codes
      [where host = plain_host and idx = 1 and w = "?w 1", THEN conjunct2, THEN conjunct1,
       rule_format, OF cd req no_request_resolved, THEN conjunct2, rule_format,
       OF registered_resolver call1, THEN conjunct2, rule_format]
  have cn: "CompileModule example_engine ?nope ''a.js'' = Inr (example_module ?nope ''a.js'')"
    by (rule compiles_example) simp
  have rn: "ModuleRequests (example_module ?nope ''a.js'') = [''dep.js'']"
    by (simp add: example_module_def)
  have pn: "resolve_requests plain_host ''a.js'' 1 (ModuleRequests (example_module ?nope ''a.js''))
              Map.empty ?wd
            = Inr (Inr [''dep.js'' \<mapsto> example_module ''export const x = 1;'' ''dep.js''],
                   ?wd\<lparr>trace := [Lock, Store 1, Unlock, Lock, Load 1, Unlock,
                                    Invoke 1 ''dep.js'' ''a.js'']\<rparr>)"
    unfolding rn by (rule dep_request_resolved)
  note s3 = LoadModule_status_codes
      [where host = plain_host and idx = 1 and w = ?wd, THEN conjunct2, THEN conjunct2,
       rule_format, OF cn pn refl, THEN conjunct1, rule_format]
  have ct: "CompileModule example_engine ''throw 1;'' ''a.js''
              = Inr (example_module ''throw 1;'' ''a.js'')"
    by (rule compiles_example) simp
  have rt: "ModuleRequests (example_module ''throw 1;'' ''a.js'') = []"
    by (simp add: example_module_def)
  have pt: "resolve_requests plain_host ''a.js'' 1
              (ModuleRequests (example_module ''throw 1;'' ''a.js'')) Map.empty ?wd
            = Inr (Inr Map.empty, ?wd)"
    unfolding rt by simp
  note s4 = LoadModule_status_codes
      [where host = plain_host and idx = 1 and w = ?wd, THEN conjunct2, THEN conjunct2,
       rule_format, OF ct pt refl,
       THEN conjunct2, rule_format, THEN conjunct1, rule_format]
  have rd: "ModuleRequests (example_module ?dep ''a.js'') = [''dep.js'']"
    by (simp add: example_module_def)
  have pd: "resolve_requests plain_host ''a.js'' 1 (ModuleRequests (example_module ?dep ''a.js''))
              Map.empty ?wd
            = Inr (Inr [''dep.js'' \<mapsto> example_module ''export const x = 1;'' ''dep.js''],
                   ?wd\<lparr>trace := [Lock, Store 1, Unlock, Lock, Load 1, Unlock,
                                    Invoke 1 ''dep.js'' ''a.js'']\<rparr>)"
    unfolding rd by (rule dep_request_resolved)
  note s0 = LoadModule_status_codes
      [where host = plain_host and idx = 1 and w = ?wd, THEN conjunct2, THEN conjunct2,
       rule_format, OF cd pd refl,
       THEN conjunct2, rule_format, THEN conjunct2, rule_format]
  have "map_sum id (apsnd stdout)
     (LoadModule example_engine plain_host ''export'' ''a.js'' 1 (?w 1))
     = Inr (1, [''SyntaxError: Unexpected end of input''])"
    unfolding s1 by (simp add: world_with_resolver_def)
  moreover have "map_sum id (apsnd trace)
       (LoadModule example_engine plain_host ?dep ''a.js'' 1 (?w 2))
       = Inr (5, [Lock, Store 1, Unlock, Lock, Load 1, Unlock, Invoke 1 ''dep.js'' ''a.js''])"
    using s5 fits_c_int_small by simp
  moreover have "map_sum id (apsnd trace)
       (LoadModule example_engine plain_host ?dep ''a.js'' 1 (?w 1))
       = Inr (2, [Lock, Store 1, Unlock, Lock, Load 1, Unlock, Invoke 1 ''dep.js'' ''a.js''])"
    using s2 by (simp add: world_with_resolver_def CString_def c_str_def NewContext_def)
  moreover have "map_sum id (apsnd stdout)
       (LoadModule example_engine plain_host ?nope ''a.js'' 1 ?wd) = Inr (3, [])"
    using s3 by (simp add: load_defs)
  moreover have "map_sum id (apsnd stdout)
       (LoadModule example_engine plain_host ''throw 1;'' ''a.js'' 1 ?wd) = Inr (4, [''1''])"
    using s4 [where tc = "thrown ''1'' ''m.js'' 1 0 None" and m = "''1''"] by (simp add: load_defs)
  moreover have "map_sum id (apsnd (dom \<circ> modules \<circ> w_ctx))
       (LoadModule example_engine plain_host ?dep ''a.js'' 1 ?wd) = Inr (0, {''a.js'', ''dep.js''})"
    using s0 [where v = JSUndefined] by (simp add: load_defs)
  ultimately show ?thesis
    by blast
qed

subsection \<open>Resolver tokens\<close>

text \<open>
  Claim C8. Take a call of \<^verbatim>\<open>Engine.LoadModule\<close> in the world \<open>w\<close>, the functions of the
  host acting on the package state through the bridge only. The token of the call is
  the counter plus one. The C function runs in the world \<open>w1\<close>, where the table holds
  the resolver under the token; if it ends the process, so does the call. If it returns,
  the call returns the same status, and in the world that it leaves the table has no
  resolver under the token, whatever the status. The events of the call are the locked
  store of the token, the events \<open>es\<close> of the C function, and the locked removal of the
  token; the mutex is free before and after, and the table is touched only while it is
  held. The tokens stored in \<open>es\<close>, by loads that the resolvers make, are the next ones
  of the counter, and are without resolver at the end; the other entries of the table
  are as they were. If the tokens stored before the call are 1, 2, ... up to the
  counter, the same holds after it; and while fewer than \<open>2^63\<close> tokens have been stored,
  they are stored in strictly increasing order, the token of the call being greater
  than every token stored before it.
\<close>
theorem resolver_token_lifecycle:
  assumes "host_steps host"
    and "tok = nextResolverToken w + 1"
    and "w1 = w\<lparr>nextResolverToken := tok,
                  resolverFuncs := (resolverFuncs w)(tok \<mapsto> resolve),
                  trace := trace w @ [Lock, Store tok, Unlock]\<rparr>"
  shows "(\<forall>c. LoadModule eng host (CString source) (CString origin) (ucast tok) w1 = Inl c \<longrightarrow>
             Engine_LoadModule eng host source origin resolve w = Inl c)
       \<and> (\<forall>rtn w2.
            LoadModule eng host (CString source) (CString origin) (ucast tok) w1
              = Inr (rtn, w2) \<longrightarrow>
            (\<exists>w' es k.
               Engine_LoadModule eng host source origin resolve w = Inr (scast rtn, w')
               \<and> w' = w2\<lparr>resolverFuncs := (resolverFuncs w2)(tok := None),
                          trace := trace w2 @ [Lock, Delete tok, Unlock]\<rparr>
               \<and> resolverFuncs w1 tok = Some resolve
               \<and> resolverFuncs w' tok = None
               \<and> trace w' = trace w @ [Lock, Store tok, Unlock] @ es @ [Lock, Delete tok, Unlock]
               \<and> lock_run False ([Lock, Store tok, Unlock] @ es @ [Lock, Delete tok, Unlock])
                   = Some False
               \<and> stored_tokens es = consecutive tok k
               \<and> nextResolverToken w' = tok + word_of_nat k
               \<and> (\<forall>t. t \<noteq> tok \<longrightarrow>
                      resolverFuncs w' t =
                        (if t \<in> set (stored_tokens es) then None else resolverFuncs w t))
               \<and> (counted w \<longrightarrow>
                      counted w'
                    \<and> (length (stored_tokens (trace w')) < 2 ^ 63 \<longrightarrow>
                          sorted_wrt (\<lambda>a b. sint a < sint b) (stored_tokens (trace w'))
                        \<and> (\<forall>t \<in> set (stored_tokens (trace w)). sint t < sint tok)))))"
proof (intro conjI allI impI)
  fix c
  assume "LoadModule eng host (CString source) (CString origin) (ucast tok) w1 = Inl c"
  then show "Engine_LoadModule eng host source origin resolve w = Inl c"
    unfolding Engine_LoadModule_unfold assms(2,3) by simp
next
  fix rtn w2
  assume run: "LoadModule eng host (CString source) (CString origin) (ucast tok) w1 = Inr (rtn, w2)"
  define w' where "w' = w2\<lparr>resolverFuncs := (resolverFuncs w2)(tok := None),
                          trace := trace w2 @ [Lock, Delete tok, Unlock]\<rparr>"
  have ret: "Engine_LoadModule eng host source origin resolve w = Inr (scast rtn, w')"
    using run unfolding Engine_LoadModule_unfold assms(2,3) w'_def by simp
  from Engine_LoadModule_lifecycle [OF assms(1) ret] run obtain es k where
    tr: "trace w2 = trace w @ [Lock, Store tok, Unlock] @ es"
    and st: "stored_tokens es = consecutive tok k"
    and nx: "nextResolverToken w2 = tok + word_of_nat k"
    and lk: "lock_run False es = Some False"
    and tb: "\<forall>t. resolverFuncs w2 t =
             (if t \<in> set (stored_tokens es) then None
              else if t = tok then Some resolve
              else resolverFuncs w t)"
    unfolding assms(2,3) by auto
  have step: "go_step w w'"
    using Engine_LoadModule_go_step [OF assms(1) ret] .
  have trace': "trace w' = trace w @ [Lock, Store tok, Unlock] @ es @ [Lock, Delete tok, Unlock]"
    using tr by (simp add: w'_def)
  have fresh: "counted w'
      \<and> (length (stored_tokens (trace w')) < 2 ^ 63 \<longrightarrow>
            sorted_wrt (\<lambda>a b. sint a < sint b) (stored_tokens (trace w'))
          \<and> (\<forall>t \<in> set (stored_tokens (trace w)). sint t < sint tok))"
    if c: "counted w"
  proof (intro conjI impI)
    show c': "counted w'"
      using c step by (rule counted_go_step)
    assume "length (stored_tokens (trace w')) < 2 ^ 63"
    with c' have s: "sorted_wrt (\<lambda>a b. sint a < sint b) (stored_tokens (trace w'))"
      by (rule counted_increasing)
    then show "sorted_wrt (\<lambda>a b. sint a < sint b) (stored_tokens (trace w'))" .
    have "stored_tokens (trace w') = stored_tokens (trace w) @ tok # stored_tokens es"
      unfolding trace' by (simp add: stored_tokens_append)
    with s show "\<forall>t \<in> set (stored_tokens (trace w)). sint t < sint tok"
      by (simp add: sorted_wrt_append)
  qed
  have "resolverFuncs w1 tok = Some resolve"
    unfolding assms(3) by simp
  moreover have "resolverFuncs w' tok = None"
    by (simp add: w'_def)
  moreover have "lock_run False ([Lock, Store tok, Unlock] @ es @ [Lock, Delete tok, Unlock])
                   = Some False"
    using lk by (simp add: lock_run_append)
  moreover have "nextResolverToken w' = tok + word_of_nat k"
    using nx by (simp add: w'_def)
  moreover have "\<forall>t. t \<noteq> tok \<longrightarrow>
                      resolverFuncs w' t =
                        (if t \<in> set (stored_tokens es) then None else resolverFuncs w t)"
    using tb by (simp add: w'_def)
  ultimately show "\<exists>w' es k.
               Engine_LoadModule eng host source origin resolve w = Inr (scast rtn, w')
               \<and> w' = w2\<lparr>resolverFuncs := (resolverFuncs w2)(tok := None),
                          trace := trace w2 @ [Lock, Delete tok, Unlock]\<rparr>
               \<and> resolverFuncs w1 tok = Some resolve
               \<and> resolverFuncs w' tok = None
               \<and> trace w' = trace w @ [Lock, Store tok, Unlock] @ es @ [Lock, Delete tok, Unlock]
               \<and> lock_run False ([Lock, Store tok, Unlock] @ es @ [Lock, Delete tok, Unlock])
                   = Some False
               \<and> stored_tokens es = consecutive tok k
               \<and> nextResolverToken w' = tok + word_of_nat k
               \<and> (\<forall>t. t \<noteq> tok \<longrightarrow>
                      resolverFuncs w' t =
                        (if t \<in> set (stored_tokens es) then None else resolverFuncs w t))
               \<and> (counted w \<longrightarrow>
                      counted w'
                    \<and> (length (stored_tokens (trace w')) < 2 ^ 63 \<longrightarrow>
                          sorted_wrt (\<lambda>a b. sint a < sint b) (stored_tokens (trace w'))
                        \<and> (\<forall>t \<in> set (stored_tokens (trace w)). sint t < sint tok)))"
    using ret w'_def trace' st fresh by blast
qed

text \<open>
  C8 for a load of a module with two requests, whose resolver loads \<^verbatim>\<open>b.js\<close> through
  the bridge and fails on \<^verbatim>\<open>c.js\<close>: the tokens are 1 and 2, and no resolver is left.
\<close>
theorem resolver_token_lifecycle_witness:
  "host_steps example_host
   \<and> counted (go_init NewContext)
   \<and> LoadModule example_engine example_host ''import \"b.js\"; import \"c.js\";'' ''a.js'' 1
        (world_with_resolver NewContext (Some 3)) = Inr (7, world_after_nested_load)
   \<and> (\<exists>w'. Engine_LoadModule example_engine example_host
               ''import \"b.js\"; import \"c.js\";'' ''a.js'' (Some 3) (go_init NewContext)
             = Inr (7, w')
           \<and> stored_tokens (trace w') = [1, 2]
           \<and> nextResolverToken w' = 2
           \<and> resolverFuncs w' 1 = None \<and> resolverFuncs w' 2 = None
           \<and> lock_run False (trace w') = Some False
           \<and> counted w'
           \<and> sorted_wrt (\<lambda>a b. sint a < sint b) (stored_tokens (trace w')))"
proof -
  let ?w = "go_init NewContext"
  have w1: "world_with_resolver NewContext (Some 3) =
      ?w\<lparr>nextResolverToken := 1,
         resolverFuncs := (resolverFuncs ?w)(1 \<mapsto> Some 3),
         trace := trace ?w @ [Lock, Store 1, Unlock]\<rparr>"
    by (simp add: world_with_resolver_def go_init_def)
  have tok: "(1 :: go_int) = nextResolverToken ?w + 1"
    by (simp add: go_init_def)
  have run: "LoadModule example_engine example_host
               (CString ''import \"b.js\"; import \"c.js\";'') (CString ''a.js'') (ucast (1 :: go_int))
               (world_with_resolver NewContext (Some 3)) = Inr (7, world_after_nested_load)"
    using nested_load_runs by (simp add: CString_def c_str_def)
  from resolver_token_lifecycle [OF host_steps_example_host tok w1, of example_engine
      "''import \"b.js\"; import \"c.js\";''" "''a.js''"] run counted_go_init [of NewContext]
  obtain w' es k where
    r: "Engine_LoadModule example_engine example_host
               ''import \"b.js\"; import \"c.js\";'' ''a.js'' (Some 3) ?w = Inr (scast (7 :: c_int), w')"
    and w': "w' = world_after_nested_load
               \<lparr>resolverFuncs := (resolverFuncs world_after_nested_load)(1 := None),
                trace := trace world_after_nested_load @ [Lock, Delete 1, Unlock]\<rparr>"
    and none: "resolverFuncs w' 1 = None"
    and cnt: "counted w'"
    and srt: "length (stored_tokens (trace w')) < 2 ^ 63 \<longrightarrow>
                sorted_wrt (\<lambda>a b. sint a < sint b) (stored_tokens (trace w'))
              \<and> (\<forall>t \<in> set (stored_tokens (trace ?w)). sint t < sint (1 :: go_int))"
    by blast
  have st: "stored_tokens (trace w') = [1, 2]"
    unfolding w' by (simp add: world_after_nested_load_def world_after_b_def)
  have "sorted_wrt (\<lambda>a b. sint a < sint b) (stored_tokens (trace w'))"
    using srt unfolding st by simp
  moreover have "nextResolverToken w' = 2" "resolverFuncs w' 2 = None"
    "lock_run False (trace w') = Some False"
    unfolding w' by (simp_all add: world_after_nested_load_def world_after_b_def)
  moreover have "Engine_LoadModule example_engine example_host
               ''import \"b.js\"; import \"c.js\";'' ''a.js'' (Some 3) ?w = Inr (7, w')"
    using r by simp
  ultimately show ?thesis
    using host_steps_example_host counted_go_init [of NewContext] nested_load_runs st none cnt
    by blast
qed

end
